theory Spec2Isabelle
  imports Complex_Main "HOL-Library.AList"
begin

section \<open>The effect catalog of \<^verbatim>\<open>src/context/audio-context.tsx\<close>\<close>

text \<open>
  Every entry of \<^verbatim>\<open>availableEffects\<close> has an \<^verbatim>\<open>id\<close>, a \<^verbatim>\<open>name\<close> and an
  \<^verbatim>\<open>apply\<close> function. Forty-nine of the fifty \<^verbatim>\<open>apply\<close> functions are straight-line
  sequences of Web Audio calls on the nodes they create and on their \<^verbatim>\<open>source\<close> parameter;
  they are written down as lists of the calls that touch the audio graph, the playback
  rate or a background activity. Parameter values of nodes, wave-shaper curves and the
  contents of audio buffers are left out: no node, connection or rate depends on them.

  In an operation list the local name \<open>0\<close> is the parameter \<^verbatim>\<open>source\<close> and the local
  name \<open>k > 0\<close> is the \<open>k\<close>-th node the function creates.
\<close>

datatype node_kind =
    BiquadFilter | StereoPanner | Convolver | WaveShaper | Delay | Gain | Oscillator
  | DynamicsCompressor | BufferSource | ScriptProcessor | Panner | MediaStreamDestination

datatype op =
    Create node_kind            \<comment> \<open>\<^verbatim>\<open>audioContext.createX()\<close>\<close>
  | Connect nat nat             \<comment> \<open>\<^verbatim>\<open>a.connect(b)\<close>\<close>
  | ConnectParam nat nat        \<comment> \<open>\<^verbatim>\<open>a.connect(b.someParam)\<close>\<close>
  | Start nat                   \<comment> \<open>\<^verbatim>\<open>a.start()\<close> on an oscillator or buffer source\<close>
  | SetPlaybackRate rat         \<comment> \<open>\<^verbatim>\<open>if (audioRef.current) audioRef.current.playbackRate = r\<close>\<close>
  | AnimationLoop nat           \<comment> \<open>a \<^verbatim>\<open>requestAnimationFrame\<close> loop writing a parameter of node \<open>a\<close>\<close>

datatype apply_body =
    Straight "op list" nat      \<comment> \<open>the calls, and the local name of the node returned\<close>
  | RandomFX                    \<comment> \<open>the body of effect 47, see \<open>apply_effect\<close>\<close>

record audio_effect =
  effect_id :: int
  effect_name :: string
  apply_body :: apply_body

definition fx_bass_boost :: audio_effect where
  "fx_bass_boost = \<lparr>effect_id = 1, effect_name = ''Bass Boost'',
     apply_body = Straight [Create BiquadFilter, Connect 0 1] 1\<rparr>"

definition fx_8d_audio :: audio_effect where
  "fx_8d_audio = \<lparr>effect_id = 2, effect_name = ''8D Audio'',
     apply_body = Straight [Create StereoPanner, AnimationLoop 1, Connect 0 1] 1\<rparr>"

definition fx_reverb :: audio_effect where
  "fx_reverb = \<lparr>effect_id = 3, effect_name = ''Reverb'',
     apply_body = Straight [Create Convolver, Connect 0 1] 1\<rparr>"

definition fx_nightcore :: audio_effect where
  "fx_nightcore = \<lparr>effect_id = 4, effect_name = ''Nightcore'',
     apply_body = Straight [SetPlaybackRate (13 / 10)] 0\<rparr>"

definition fx_vaporwave :: audio_effect where
  "fx_vaporwave = \<lparr>effect_id = 5, effect_name = ''Vaporwave'',
     apply_body = Straight [SetPlaybackRate (8 / 10)] 0\<rparr>"

definition fx_distortion :: audio_effect where
  "fx_distortion = \<lparr>effect_id = 6, effect_name = ''Distortion'',
     apply_body = Straight [Create WaveShaper, Connect 0 1] 1\<rparr>"

definition fx_telephone :: audio_effect where
  "fx_telephone = \<lparr>effect_id = 7, effect_name = ''Telephone'',
     apply_body = Straight [Create BiquadFilter, Create BiquadFilter, Connect 0 2, Connect 2 1] 1\<rparr>"

definition fx_lo_fi :: audio_effect where
  "fx_lo_fi = \<lparr>effect_id = 8, effect_name = ''Lo-Fi'',
     apply_body = Straight [Create BiquadFilter, Create WaveShaper, Connect 0 1, Connect 1 2] 2\<rparr>"

definition fx_pitch_shift_up :: audio_effect where
  "fx_pitch_shift_up = \<lparr>effect_id = 9, effect_name = ''Pitch Shift Up'',
     apply_body = Straight [SetPlaybackRate (12 / 10)] 0\<rparr>"

definition fx_pitch_shift_down :: audio_effect where
  "fx_pitch_shift_down = \<lparr>effect_id = 10, effect_name = ''Pitch Shift Down'',
     apply_body = Straight [SetPlaybackRate (85 / 100)] 0\<rparr>"

definition fx_chorus :: audio_effect where
  "fx_chorus = \<lparr>effect_id = 11, effect_name = ''Chorus'',
     apply_body = Straight [Create Delay, Create Gain, Create Oscillator, Create Gain,
       Connect 3 4, ConnectParam 4 1, Start 3, Connect 0 1, Connect 1 2,
       Create Gain, Connect 0 5, Connect 2 5] 5\<rparr>"

definition fx_tremolo :: audio_effect where
  "fx_tremolo = \<lparr>effect_id = 12, effect_name = ''Tremolo'',
     apply_body = Straight [Create Gain, Create Oscillator, ConnectParam 2 1, Start 2,
       Connect 0 1] 1\<rparr>"

definition fx_vibrato :: audio_effect where
  "fx_vibrato = \<lparr>effect_id = 13, effect_name = ''Vibrato'',
     apply_body = Straight [Create Delay, Create Oscillator, Create Gain,
       Connect 2 3, ConnectParam 3 1, Start 2, Connect 0 1] 1\<rparr>"

definition fx_compressor :: audio_effect where
  "fx_compressor = \<lparr>effect_id = 14, effect_name = ''Compressor'',
     apply_body = Straight [Create DynamicsCompressor, Connect 0 1] 1\<rparr>"

definition fx_delay :: audio_effect where
  "fx_delay = \<lparr>effect_id = 15, effect_name = ''Delay'',
     apply_body = Straight [Create Delay, Create Gain, Create Gain, Create Gain,
       Connect 0 3, Connect 0 1, Connect 1 2, Connect 2 1, Connect 1 4,
       Create Gain, Connect 3 5, Connect 4 5] 5\<rparr>"

definition fx_stereo_widener :: audio_effect where
  "fx_stereo_widener = \<lparr>effect_id = 16, effect_name = ''Stereo Widener'',
     apply_body = Straight [Create StereoPanner, Create StereoPanner, Create Delay,
       Connect 0 1, Connect 0 3, Connect 3 2,
       Create Gain, Connect 1 4, Connect 2 4] 4\<rparr>"

definition fx_vinyl :: audio_effect where
  "fx_vinyl = \<lparr>effect_id = 17, effect_name = ''Vinyl'',
     apply_body = Straight [Create BiquadFilter, Create Gain, Create BufferSource, Start 3,
       Connect 3 2, Connect 0 1,
       Create Gain, Connect 1 4, Connect 2 4] 4\<rparr>"

definition fx_am_radio :: audio_effect where
  "fx_am_radio = \<lparr>effect_id = 18, effect_name = ''AM Radio'',
     apply_body = Straight [Create BiquadFilter, Create BiquadFilter, Create WaveShaper,
       Connect 0 2, Connect 2 1, Connect 1 3] 3\<rparr>"

definition fx_bitcrusher :: audio_effect where
  "fx_bitcrusher = \<lparr>effect_id = 19, effect_name = ''Bitcrusher'',
     apply_body = Straight [Create ScriptProcessor, Connect 0 1] 1\<rparr>"

definition fx_underwater :: audio_effect where
  "fx_underwater = \<lparr>effect_id = 20, effect_name = ''Underwater'',
     apply_body = Straight [Create BiquadFilter, Create Convolver, Connect 0 1, Connect 1 2] 2\<rparr>"

definition fx_auto_tune :: audio_effect where
  "fx_auto_tune = \<lparr>effect_id = 21, effect_name = ''Auto-Tune'',
     apply_body = Straight [Create BiquadFilter, Connect 0 1] 1\<rparr>"

definition fx_vocoder :: audio_effect where
  "fx_vocoder = \<lparr>effect_id = 22, effect_name = ''Vocoder'',
     apply_body = Straight [Create BiquadFilter, Create WaveShaper, Connect 0 1, Connect 1 2] 2\<rparr>"

definition fx_harmonizer :: audio_effect where
  "fx_harmonizer = \<lparr>effect_id = 23, effect_name = ''Harmonizer'',
     apply_body = Straight [Create Gain, Create Gain, Create Delay, Create Delay,
       Connect 0 3, Connect 0 4, Connect 3 1, Connect 4 2,
       Create Gain, Connect 0 5, Connect 1 5, Connect 2 5] 5\<rparr>"

definition fx_voice_changer :: audio_effect where
  "fx_voice_changer = \<lparr>effect_id = 24, effect_name = ''Voice Changer'',
     apply_body = Straight [Create BiquadFilter, Create BiquadFilter, Connect 0 1, Connect 1 2] 2\<rparr>"

definition fx_whisper :: audio_effect where
  "fx_whisper = \<lparr>effect_id = 25, effect_name = ''Whisper'',
     apply_body = Straight [Create BiquadFilter, Create Gain, Create Gain, Create BufferSource,
       Start 4, Connect 4 3, Connect 0 1, Connect 1 2,
       Create Gain, Connect 2 5, Connect 3 5] 5\<rparr>"

definition fx_megaphone :: audio_effect where
  "fx_megaphone = \<lparr>effect_id = 26, effect_name = ''Megaphone'',
     apply_body = Straight [Create BiquadFilter, Create WaveShaper, Create Gain,
       Connect 0 1, Connect 1 2, Connect 2 3] 3\<rparr>"

definition fx_chipmunk :: audio_effect where
  "fx_chipmunk = \<lparr>effect_id = 27, effect_name = ''Chipmunk'',
     apply_body = Straight [SetPlaybackRate (15 / 10), Create BiquadFilter, Connect 0 1] 1\<rparr>"

definition fx_monster_voice :: audio_effect where
  "fx_monster_voice = \<lparr>effect_id = 28, effect_name = ''Monster Voice'',
     apply_body = Straight [SetPlaybackRate (7 / 10), Create BiquadFilter, Create WaveShaper,
       Connect 0 1, Connect 1 2] 2\<rparr>"

definition fx_mono_to_stereo :: audio_effect where
  "fx_mono_to_stereo = \<lparr>effect_id = 29, effect_name = ''Mono to Stereo'',
     apply_body = Straight [Create Delay, Create Delay, Create Gain, Create Gain,
       Create StereoPanner, Create StereoPanner,
       Connect 0 1, Connect 0 2, Connect 1 3, Connect 2 4, Connect 3 5, Connect 4 6,
       Create Gain, Connect 5 7, Connect 6 7] 7\<rparr>"

definition fx_binaural_beat :: audio_effect where
  "fx_binaural_beat = \<lparr>effect_id = 30, effect_name = ''Binaural Beat'',
     apply_body = Straight [Create Oscillator, Create Oscillator, Create Gain, Create Gain,
       Create StereoPanner, Create StereoPanner,
       Connect 1 3, Connect 2 4, Connect 3 5, Connect 4 6, Start 1, Start 2,
       Create Gain, Connect 0 7, Connect 5 7, Connect 6 7] 7\<rparr>"

definition fx_ambisonic :: audio_effect where
  "fx_ambisonic = \<lparr>effect_id = 31, effect_name = ''Ambisonic'',
     apply_body = Straight [Create StereoPanner, Create StereoPanner, Create StereoPanner,
       Create StereoPanner, Create Delay, Create Delay, Create Delay, Create Delay,
       Connect 0 5, Connect 0 6, Connect 0 7, Connect 0 8,
       Connect 5 1, Connect 6 2, Connect 7 3, Connect 8 4,
       Create Gain, Connect 1 9, Connect 2 9, Connect 3 9, Connect 4 9] 9\<rparr>"

definition fx_hrtf :: audio_effect where
  "fx_hrtf = \<lparr>effect_id = 32, effect_name = ''HRTF'',
     apply_body = Straight [Create Panner, Create Oscillator, Create Gain,
       Connect 2 3, ConnectParam 3 1, Start 2, Connect 0 1] 1\<rparr>"

definition fx_tape_saturation :: audio_effect where
  "fx_tape_saturation = \<lparr>effect_id = 33, effect_name = ''Tape Saturation'',
     apply_body = Straight [Create BiquadFilter, Create BiquadFilter, Create WaveShaper,
       Connect 0 2, Connect 2 3, Connect 3 1] 1\<rparr>"

definition fx_cassette :: audio_effect where
  "fx_cassette = \<lparr>effect_id = 34, effect_name = ''Cassette'',
     apply_body = Straight [Create BiquadFilter, Create BiquadFilter, Create Oscillator,
       Create Gain, Create Delay, Connect 3 4, ConnectParam 4 5, Start 3,
       Create Gain, Create BufferSource, Start 7, Connect 7 6,
       Connect 0 2, Connect 2 1, Connect 1 5,
       Create Gain, Connect 5 8, Connect 6 8] 8\<rparr>"

definition fx_vhs_audio :: audio_effect where
  "fx_vhs_audio = \<lparr>effect_id = 35, effect_name = ''VHS Audio'',
     apply_body = Straight [Create BiquadFilter, Create BiquadFilter, Create Gain,
       Create BufferSource, Start 4, Create Oscillator, Create Gain,
       ConnectParam 5 6, Start 5, Connect 4 3,
       Connect 0 2, Connect 2 1, Connect 1 6,
       Create Gain, Connect 6 7, Connect 3 7] 7\<rparr>"

definition fx_granular :: audio_effect where
  "fx_granular = \<lparr>effect_id = 36, effect_name = ''Granular'',
     apply_body = Straight [Create ScriptProcessor] 1\<rparr>"

definition fx_reverse :: audio_effect where
  "fx_reverse = \<lparr>effect_id = 37, effect_name = ''Reverse'',
     apply_body = Straight [Create ScriptProcessor, Connect 0 1] 1\<rparr>"

definition fx_glitch :: audio_effect where
  "fx_glitch = \<lparr>effect_id = 38, effect_name = ''Glitch'',
     apply_body = Straight [Create ScriptProcessor, Connect 0 1] 1\<rparr>"

definition fx_stutter :: audio_effect where
  "fx_stutter = \<lparr>effect_id = 39, effect_name = ''Stutter'',
     apply_body = Straight [Create ScriptProcessor, Connect 0 1] 1\<rparr>"

definition fx_time_stretch :: audio_effect where
  "fx_time_stretch = \<lparr>effect_id = 40, effect_name = ''Time Stretch'',
     apply_body = Straight [SetPlaybackRate (7 / 10)] 0\<rparr>"

definition fx_formant_shift :: audio_effect where
  "fx_formant_shift = \<lparr>effect_id = 41, effect_name = ''Formant Shift'',
     apply_body = Straight [Create BiquadFilter, Create BiquadFilter, Create BiquadFilter,
       Connect 0 1, Connect 1 2, Connect 2 3] 3\<rparr>"

definition fx_autotune_extreme :: audio_effect where
  "fx_autotune_extreme = \<lparr>effect_id = 42, effect_name = ''Autotune Extreme'',
     apply_body = Straight [Create BiquadFilter, Create BiquadFilter, Create BiquadFilter,
       Connect 0 1, Connect 1 2, Connect 2 3] 3\<rparr>"

definition fx_bluetooth_quality :: audio_effect where
  "fx_bluetooth_quality = \<lparr>effect_id = 43, effect_name = ''Bluetooth Quality'',
     apply_body = Straight [Create BiquadFilter, Create BiquadFilter, Create DynamicsCompressor,
       Create ScriptProcessor, Connect 0 2, Connect 2 1, Connect 1 3, Connect 3 4] 4\<rparr>"

definition fx_phone_call :: audio_effect where
  "fx_phone_call = \<lparr>effect_id = 44, effect_name = ''Phone Call'',
     apply_body = Straight [Create BiquadFilter, Create BiquadFilter, Create DynamicsCompressor,
       Create Gain, Create BufferSource, Start 5, Connect 5 4,
       Connect 0 2, Connect 2 1, Connect 1 3,
       Create Gain, Connect 3 6, Connect 4 6] 6\<rparr>"

definition fx_stadium_echo :: audio_effect where
  "fx_stadium_echo = \<lparr>effect_id = 45, effect_name = ''Stadium Echo'',
     apply_body = Straight [Create Convolver, Create Gain, Create Gain,
       Connect 0 2, Connect 0 1, Connect 1 3,
       Create Gain, Connect 2 4, Connect 3 4] 4\<rparr>"

definition fx_cathedral :: audio_effect where
  "fx_cathedral = \<lparr>effect_id = 46, effect_name = ''Cathedral'',
     apply_body = Straight [Create Convolver, Create Gain, Create Gain,
       Connect 0 2, Connect 0 1, Connect 1 3,
       Create Gain, Connect 2 4, Connect 3 4] 4\<rparr>"

definition fx_random_fx :: audio_effect where
  "fx_random_fx = \<lparr>effect_id = 47, effect_name = ''Random FX'', apply_body = RandomFX\<rparr>"

definition fx_custom_chain :: audio_effect where
  "fx_custom_chain = \<lparr>effect_id = 48, effect_name = ''Custom Chain'',
     apply_body = Straight [Create Convolver, Create WaveShaper, Create Delay, Create Gain,
       Connect 0 1, Connect 1 2, Connect 2 3, Connect 3 4, Connect 4 3] 3\<rparr>"

definition fx_pitch_stretch :: audio_effect where
  "fx_pitch_stretch = \<lparr>effect_id = 49, effect_name = ''Pitch Stretch'',
     apply_body = Straight [Create BiquadFilter, Create BiquadFilter, Connect 0 1, Connect 1 2] 2\<rparr>"

definition fx_flanger :: audio_effect where
  "fx_flanger = \<lparr>effect_id = 50, effect_name = ''Flanger'',
     apply_body = Straight [Create Delay, Create Oscillator, Create Gain,
       Connect 2 3, ConnectParam 3 1, Start 2,
       Create Gain, Create Gain, Create Gain,
       Connect 0 5, Connect 0 1, Connect 1 4, Connect 4 1, Connect 1 6,
       Create Gain, Connect 5 7, Connect 6 7] 7\<rparr>"

definition availableEffects :: "audio_effect list" where
  "availableEffects =
    [fx_bass_boost, fx_8d_audio, fx_reverb, fx_nightcore, fx_vaporwave, fx_distortion,
     fx_telephone, fx_lo_fi, fx_pitch_shift_up, fx_pitch_shift_down, fx_chorus, fx_tremolo,
     fx_vibrato, fx_compressor, fx_delay, fx_stereo_widener, fx_vinyl, fx_am_radio,
     fx_bitcrusher, fx_underwater, fx_auto_tune, fx_vocoder, fx_harmonizer, fx_voice_changer,
     fx_whisper, fx_megaphone, fx_chipmunk, fx_monster_voice, fx_mono_to_stereo,
     fx_binaural_beat, fx_ambisonic, fx_hrtf, fx_tape_saturation, fx_cassette, fx_vhs_audio,
     fx_granular, fx_reverse, fx_glitch, fx_stutter, fx_time_stretch, fx_formant_shift,
     fx_autotune_extreme, fx_bluetooth_quality, fx_phone_call, fx_stadium_echo, fx_cathedral,
     fx_random_fx, fx_custom_chain, fx_pitch_stretch, fx_flanger]"

lemmas fx_defs =
  fx_bass_boost_def fx_8d_audio_def fx_reverb_def fx_nightcore_def fx_vaporwave_def
  fx_distortion_def fx_telephone_def fx_lo_fi_def fx_pitch_shift_up_def
  fx_pitch_shift_down_def fx_chorus_def fx_tremolo_def fx_vibrato_def fx_compressor_def
  fx_delay_def fx_stereo_widener_def fx_vinyl_def fx_am_radio_def fx_bitcrusher_def
  fx_underwater_def fx_auto_tune_def fx_vocoder_def fx_harmonizer_def fx_voice_changer_def
  fx_whisper_def fx_megaphone_def fx_chipmunk_def fx_monster_voice_def fx_mono_to_stereo_def
  fx_binaural_beat_def fx_ambisonic_def fx_hrtf_def fx_tape_saturation_def fx_cassette_def
  fx_vhs_audio_def fx_granular_def fx_reverse_def fx_glitch_def fx_stutter_def
  fx_time_stretch_def fx_formant_shift_def fx_autotune_extreme_def fx_bluetooth_quality_def
  fx_phone_call_def fx_stadium_echo_def fx_cathedral_def fx_random_fx_def fx_custom_chain_def
  fx_pitch_stretch_def fx_flanger_def

section \<open>The activation state\<close>

text \<open>
  \<^verbatim>\<open>toggleEffect\<close> is the updater given to \<^verbatim>\<open>setActiveEffectIds\<close>. Its parameter is
  a \<^verbatim>\<open>number\<close>, an integer here; it looks nothing up in the catalog and has no failing
  branch. \<^verbatim>\<open>activeEffects\<close> is recomputed from the catalog on each render.
\<close>

definition toggleEffect :: "int \<Rightarrow> int list \<Rightarrow> int list" where
  "toggleEffect effectId prev =
     (if effectId \<in> set prev then filter (\<lambda>i. i \<noteq> effectId) prev else prev @ [effectId])"

definition activeEffects :: "int list \<Rightarrow> audio_effect list" where
  "activeEffects activeEffectIds =
     filter (\<lambda>effect. effect_id effect \<in> set activeEffectIds) availableEffects"


section \<open>The audio graph and the effect constructors\<close>

text \<open>
  Audio nodes are numbered in the order of their creation. \<^verbatim>\<open>initializeAudioContext\<close>
  creates the media element source and the master gain and connects source to gain and
  gain to the destination of the context; every later node takes the next free number.
  A connection \<open>(a, b)\<close> is \<^verbatim>\<open>a.connect(b)\<close>. \<^verbatim>\<open>effectNodes\<close> is the JavaScript
  \<^verbatim>\<open>Map\<close> of \<^verbatim>\<open>effectNodesRef\<close>, whose iteration order is the order of first insertion.
  \<^verbatim>\<open>started\<close> lists the oscillators and buffer sources on which \<^verbatim>\<open>start()\<close> was called
  and \<^verbatim>\<open>animationLoops\<close> the nodes driven by a \<^verbatim>\<open>requestAnimationFrame\<close> loop; the
  source never stops a node and never cancels an animation frame, so no operation removes
  an entry from either.

  The audio element of \<^verbatim>\<open>audioRef\<close> exists from the first mount on, so the test
  \<^verbatim>\<open>if (audioRef.current)\<close> of the rate-changing constructors always succeeds.
  A factory method the browser does not provide (\<^verbatim>\<open>createScriptProcessor\<close> is
  deprecated) throws a \<^verbatim>\<open>TypeError\<close> when called; \<open>supported\<close> tells which factory
  methods exist. A thrown error carries the state reached when it was thrown, since the
  mutations made before it stay.
\<close>

type_synonym node = nat

abbreviation (input) sourceNode :: node where "sourceNode \<equiv> 0"
abbreviation (input) gainNode :: node where "gainNode \<equiv> 1"
abbreviation (input) destinationNode :: node where "destinationNode \<equiv> 2"

record engine =
  activeEffectIds :: "int list"
  audioContextInitialized :: bool
  playbackRate :: rat
  connections :: "(node \<times> node) list"
  paramConnections :: "(node \<times> node) list"
  nextNode :: node
  effectNodes :: "(int \<times> node) list"
  started :: "node list"
  animationLoops :: "node list"

datatype js_error = TypeError

type_synonym 'a thrown = "js_error \<times> 'a engine_scheme"

definition local_node :: "node \<Rightarrow> node \<Rightarrow> nat \<Rightarrow> node" where
  "local_node source base k = (if k = 0 then source else base + k - 1)"

definition connect :: "node \<Rightarrow> node \<Rightarrow> 'a engine_scheme \<Rightarrow> 'a engine_scheme" where
  "connect a b st = st\<lparr>connections := connections st @ [(a, b)]\<rparr>"

definition disconnect :: "node \<Rightarrow> 'a engine_scheme \<Rightarrow> 'a engine_scheme" where
  "disconnect a st =
     st\<lparr>connections := filter (\<lambda>e. fst e \<noteq> a) (connections st),
        paramConnections := filter (\<lambda>e. fst e \<noteq> a) (paramConnections st)\<rparr>"

fun run_op :: "(node_kind \<Rightarrow> bool) \<Rightarrow> node \<Rightarrow> node \<Rightarrow> op \<Rightarrow> 'a engine_scheme
    \<Rightarrow> 'a thrown + 'a engine_scheme" where
  "run_op supported source base (Create k) st =
     (if supported k then Inr (st\<lparr>nextNode := Suc (nextNode st)\<rparr>) else Inl (TypeError, st))"
| "run_op supported source base (Connect a b) st =
     Inr (connect (local_node source base a) (local_node source base b) st)"
| "run_op supported source base (ConnectParam a b) st =
     Inr (st\<lparr>paramConnections := paramConnections st
            @ [(local_node source base a, local_node source base b)]\<rparr>)"
| "run_op supported source base (Start a) st =
     Inr (st\<lparr>started := started st @ [local_node source base a]\<rparr>)"
| "run_op supported source base (SetPlaybackRate r) st = Inr (st\<lparr>playbackRate := r\<rparr>)"
| "run_op supported source base (AnimationLoop a) st =
     Inr (st\<lparr>animationLoops := animationLoops st @ [local_node source base a]\<rparr>)"

fun run_ops :: "(node_kind \<Rightarrow> bool) \<Rightarrow> node \<Rightarrow> node \<Rightarrow> op list \<Rightarrow> 'a engine_scheme
    \<Rightarrow> 'a thrown + 'a engine_scheme" where
  "run_ops supported source base [] st = Inr st"
| "run_ops supported source base (x # xs) st =
     (case run_op supported source base x st of
        Inl e \<Rightarrow> Inl e
      | Inr st' \<Rightarrow> run_ops supported source base xs st')"

definition apply_straight :: "(node_kind \<Rightarrow> bool) \<Rightarrow> op list \<Rightarrow> nat \<Rightarrow> 'a engine_scheme \<Rightarrow> node
    \<Rightarrow> 'a thrown + 'a engine_scheme \<times> node" where
  "apply_straight supported ops ret st source =
     (case run_ops supported source (nextNode st) ops st of
        Inl e \<Rightarrow> Inl e
      | Inr st' \<Rightarrow> Inr (st', local_node source (nextNode st) ret))"

text \<open>
  The constructor of Random FX copies the catalog without the entry of id 47, shuffles
  the copy in place from the last index down to 1 and applies the first three entries in
  sequence. \<open>random k\<close> is what the \<open>k\<close>-th call of \<^verbatim>\<open>Math.random()\<close> in the shuffle returns,
  as an exact fraction; the calls other constructors make to fill audio buffers are not
  counted, since the theorems hold for every \<open>random\<close>. \<^verbatim>\<open>Math.random()\<close> returns a value
  in \<open>[0, 1)\<close>, so \<open>j\<close> is at most \<open>i\<close>; for a \<open>random\<close> outside this range, which the
  source cannot meet, \<open>swap\<close> leaves the array as it is.
\<close>

definition swap :: "nat \<Rightarrow> nat \<Rightarrow> 'a list \<Rightarrow> 'a list" where
  "swap i j xs = (if i < length xs \<and> j < length xs then xs[i := xs ! j, j := xs ! i] else xs)"

primrec shuffle_from :: "nat \<Rightarrow> (nat \<Rightarrow> rat) \<Rightarrow> 'a list \<Rightarrow> 'a list" where
  "shuffle_from 0 random xs = xs"
| "shuffle_from (Suc k) random xs =
     (let i = Suc k; j = nat \<lfloor>random 0 * of_nat (i + 1)\<rfloor>
      in shuffle_from k (\<lambda>n. random (Suc n)) (swap i j xs))"

definition shuffle :: "(nat \<Rightarrow> rat) \<Rightarrow> 'a list \<Rightarrow> 'a list" where
  "shuffle random xs = shuffle_from (length xs - 1) random xs"

definition availableEffectsCopy :: "audio_effect list" where
  "availableEffectsCopy = filter (\<lambda>effect. effect_id effect \<noteq> 47) availableEffects"

definition selectedEffects :: "(nat \<Rightarrow> rat) \<Rightarrow> audio_effect list" where
  "selectedEffects random = take 3 (shuffle random availableEffectsCopy)"

lemma set_swap_eq: "set (swap i j xs) = set xs"
  by (simp add: swap_def)

lemma set_shuffle_from: "set (shuffle_from k random xs) = set xs"
  by (induction k arbitrary: random xs) (simp_all add: Let_def set_swap_eq)

lemma set_shuffle: "set (shuffle random xs) = set xs"
  by (simp add: shuffle_def set_shuffle_from)

lemma length_swap: "length (swap i j xs) = length xs"
  by (simp add: swap_def)

lemma length_shuffle_from: "length (shuffle_from k random xs) = length xs"
  by (induction k arbitrary: random xs) (simp_all add: Let_def length_swap)

lemma length_shuffle: "length (shuffle random xs) = length xs"
  by (simp add: shuffle_def length_shuffle_from)

lemma random_fx_only: "e \<in> set availableEffects \<Longrightarrow> apply_body e = RandomFX \<longleftrightarrow> effect_id e = 47"
  by (auto simp add: availableEffects_def fx_defs)

lemma selected_straight: "e \<in> set (selectedEffects random) \<Longrightarrow> apply_body e \<noteq> RandomFX"
proof -
  assume "e \<in> set (selectedEffects random)"
  then have "e \<in> set availableEffectsCopy"
    unfolding selectedEffects_def using set_shuffle in_set_takeD by fastforce
  then show ?thesis
    by (simp add: availableEffectsCopy_def random_fx_only)
qed

text \<open>
  \<open>apply_effect\<close> is \<^verbatim>\<open>effect.apply(audioContext, source)\<close>. The constructor of Random FX
  calls the constructors of the effects it has selected; the recursion ends because none
  of them is Random FX again.
\<close>

function apply_effect :: "(node_kind \<Rightarrow> bool) \<Rightarrow> (nat \<Rightarrow> rat) \<Rightarrow> audio_effect \<Rightarrow> 'a engine_scheme
      \<Rightarrow> node \<Rightarrow> 'a thrown + 'a engine_scheme \<times> node"
  and apply_chain :: "(node_kind \<Rightarrow> bool) \<Rightarrow> (nat \<Rightarrow> rat) \<Rightarrow> audio_effect list \<Rightarrow> 'a engine_scheme
      \<Rightarrow> node \<Rightarrow> 'a thrown + 'a engine_scheme \<times> node" where
  "apply_effect supported random effect st source =
     (case apply_body effect of
        Straight ops ret \<Rightarrow> apply_straight supported ops ret st source
      | RandomFX \<Rightarrow> apply_chain supported random (selectedEffects random) st source)"
| "apply_chain supported random [] st currentNode = Inr (st, currentNode)"
| "apply_chain supported random (effect # effects) st currentNode =
     (case apply_effect supported random effect st currentNode of
        Inl e \<Rightarrow> Inl e
      | Inr (st', node) \<Rightarrow> apply_chain supported random effects st' node)"
  by pat_completeness auto
termination
  apply (relation "measures [
     (\<lambda>x. case x of Inl (s, r, e, st, n) \<Rightarrow> (if apply_body e = RandomFX then 2 else 0)
               | Inr (s, r, es, st, n) \<Rightarrow> (if \<exists>e \<in> set es. apply_body e = RandomFX then 3 else 1)),
     (\<lambda>x. case x of Inl (s, r, e, st, n) \<Rightarrow> 0 | Inr (s, r, es, st, n) \<Rightarrow> length es)]")
  apply (auto simp: selected_straight)
  done


section \<open>The rebuild of the processing chain\<close>

text \<open>
  \<^verbatim>\<open>initializeAudioContext\<close> creates the source node and the master gain node and wires
  source to gain to destination. The effect \<^verbatim>\<open>useEffect(..., [activeEffectIds,
  audioContextInitialized])\<close> runs after every change of the active ids: it disconnects
  the recorded effect nodes and the source, applies the active effects from the source
  on, connects the last node to the gain node and resets the playback rate when none of
  four names is active. \<^verbatim>\<open>audioContextInitialized\<close> stands for the whole guard of the
  effect: the context, source and gain references are set exactly when the flag is.
  Nothing catches an error thrown by an \<^verbatim>\<open>apply\<close>.
\<close>

definition initializeAudioContext :: "'a engine_scheme \<Rightarrow> 'a engine_scheme" where
  "initializeAudioContext st =
     st\<lparr>audioContextInitialized := True,
        connections := [(sourceNode, gainNode), (gainNode, destinationNode)],
        paramConnections := [], nextNode := 3, effectNodes := [],
        started := [], animationLoops := []\<rparr>"

fun apply_active :: "(node_kind \<Rightarrow> bool) \<Rightarrow> (nat \<Rightarrow> rat) \<Rightarrow> audio_effect list
    \<Rightarrow> 'a engine_scheme \<Rightarrow> node \<Rightarrow> 'a thrown + 'a engine_scheme \<times> node" where
  "apply_active supported random [] st currentNode = Inr (st, currentNode)"
| "apply_active supported random (effect # effects) st currentNode =
     (case apply_effect supported random effect st currentNode of
        Inl e \<Rightarrow> Inl e
      | Inr (st', effectNode) \<Rightarrow>
          apply_active supported random effects
            (st'\<lparr>effectNodes := AList.update (effect_id effect) effectNode (effectNodes st')\<rparr>)
            effectNode)"

definition speed_effect_active :: "audio_effect list \<Rightarrow> bool" where
  "speed_effect_active effects =
     list_ex (\<lambda>effect. effect_name effect
        \<in> set [''Nightcore'', ''Vaporwave'', ''Pitch Shift Up'', ''Pitch Shift Down'']) effects"

definition applyEffects :: "(node_kind \<Rightarrow> bool) \<Rightarrow> (nat \<Rightarrow> rat) \<Rightarrow> 'a engine_scheme
    \<Rightarrow> 'a thrown + 'a engine_scheme" where
  "applyEffects supported random st =
     (if \<not> audioContextInitialized st then Inr st
      else
        let st1 = fold disconnect (map snd (effectNodes st)) st;
            st2 = st1\<lparr>effectNodes := []\<rparr>;
            st3 = disconnect sourceNode st2
        in case apply_active supported random (activeEffects (activeEffectIds st)) st3 sourceNode of
             Inl e \<Rightarrow> Inl e
           | Inr (st4, currentNode) \<Rightarrow>
               let st5 = connect currentNode gainNode st4
               in Inr (if \<not> speed_effect_active (activeEffects (activeEffectIds st))
                       then st5\<lparr>playbackRate := 1\<rparr> else st5))"

text \<open>
  A click on an effect tile: \<^verbatim>\<open>toggleEffect\<close> stores a new array of ids, and the change
  of \<^verbatim>\<open>activeEffectIds\<close> makes the effect above run.
\<close>

definition toggle :: "(node_kind \<Rightarrow> bool) \<Rightarrow> (nat \<Rightarrow> rat) \<Rightarrow> int \<Rightarrow> 'a engine_scheme
    \<Rightarrow> 'a thrown + 'a engine_scheme" where
  "toggle supported random effectId st =
     applyEffects supported random
       (st\<lparr>activeEffectIds := toggleEffect effectId (activeEffectIds st)\<rparr>)"

section \<open>The capture of the processed signal\<close>

text \<open>
  The session adds the transport and recording state to the engine. \<^verbatim>\<open>audioFile\<close> is
  the name of the loaded file, if any. \<^verbatim>\<open>downloadProcessedAudio\<close> has one guard (audio
  element, URL, initialized context) and no test of \<^verbatim>\<open>isRecording\<close>; the two promises
  it waits for, \<^verbatim>\<open>resume()\<close> and \<^verbatim>\<open>play()\<close>, are settled by the browser, and their
  outcomes are arguments here. The recording effect creates the tap and the recorder when
  it runs with \<^verbatim>\<open>isRecording\<close> set; its \<^verbatim>\<open>onstop\<close> handler closes over the file and the
  active effects of the render that created the recorder.
\<close>

datatype context_state = Suspended | Running

record recorder =
  stream :: node
  mimeType :: string
  recording :: bool
  capturedFile :: "string option"
  capturedEffects :: "audio_effect list"

record download =
  blobType :: string
  downloadName :: string

record session = engine +
  audioFile :: "string option"
  audioUrl :: bool
  contextState :: context_state
  currentTime :: rat
  paused :: bool
  isRecording :: bool
  mediaRecorder :: "recorder option"
  recordedChunks :: "nat list"
  downloads :: "download list"



section \<open>The export file name\<close>

text \<open>
  The \<^verbatim>\<open>onstop\<close> handler of the recorder derives the name of the download from the
  name of the loaded file and the names of the active effects. Strings are lists of
  bytes; the catalog names are ASCII, so \<^verbatim>\<open>toLowerCase\<close> is modelled on the letters
  \<open>A\<close> to \<open>Z\<close> and the class \<^verbatim>\<open>\s\<close> on the ASCII white space characters.
\<close>

primrec split_on :: "char \<Rightarrow> string \<Rightarrow> string list" where
  "split_on sep [] = [[]]"
| "split_on sep (c # cs) =
     (if c = sep then [] # split_on sep cs
      else (case split_on sep cs of [] \<Rightarrow> [[c]] | w # ws \<Rightarrow> (c # w) # ws))"

definition toLowerCase_char :: "char \<Rightarrow> char" where
  "toLowerCase_char c =
     (case map_of (zip ''ABCDEFGHIJKLMNOPQRSTUVWXYZ'' ''abcdefghijklmnopqrstuvwxyz'') c of
        None \<Rightarrow> c | Some l \<Rightarrow> l)"

definition toLowerCase :: "string \<Rightarrow> string" where
  "toLowerCase s = map toLowerCase_char s"

definition is_space :: "char \<Rightarrow> bool" where
  "is_space c \<longleftrightarrow> c \<in> set [CHR '' '', CHR 0x09, CHR 0x0A, CHR 0x0B, CHR 0x0C, CHR 0x0D]"

function replace_spaces :: "string \<Rightarrow> string" where
  "replace_spaces [] = []"
| "replace_spaces (c # cs) =
     (if is_space c then CHR ''-'' # replace_spaces (dropWhile is_space cs)
      else c # replace_spaces cs)"
  by pat_completeness auto
termination
  by (relation "measure length") (auto simp: less_Suc_eq_le length_dropWhile_le)

fun join :: "string \<Rightarrow> string list \<Rightarrow> string" where
  "join sep [] = []"
| "join sep [x] = x"
| "join sep (x # y # ys) = x @ sep @ join sep (y # ys)"

definition originalName :: "string option \<Rightarrow> string" where
  "originalName fileName =
     (case fileName of
        None \<Rightarrow> ''audio''
      | Some n \<Rightarrow>
          (case split_on CHR ''.'' n of
             [] \<Rightarrow> ''audio''
           | w # _ \<Rightarrow> if w = [] then ''audio'' else w))"

definition effectNames :: "audio_effect list \<Rightarrow> string" where
  "effectNames effects =
     (if length effects > 0
      then join ''-'' (map (\<lambda>effect. replace_spaces (toLowerCase (effect_name effect))) effects)
      else ''original'')"

definition filename :: "string option \<Rightarrow> audio_effect list \<Rightarrow> string" where
  "filename fileName effects = originalName fileName @ ''-'' @ effectNames effects @ ''.mp3''"

definition onstop :: "recorder \<Rightarrow> session \<Rightarrow> session" where
  "onstop r st =
     st\<lparr>downloads := downloads st
           @ [\<lparr>blobType = ''audio/mp3'',
               downloadName = filename (capturedFile r) (capturedEffects r)\<rparr>],
        recordedChunks := [],
        isRecording := False\<rparr>"

section \<open>Sample states\<close>

text \<open>
  The state right after \<^verbatim>\<open>initializeAudioContext\<close> for a newly loaded file, with and
  without the transport and recording part; a browser that provides every factory method
  and one without \<^verbatim>\<open>createScriptProcessor\<close>; a session twelve seconds into a recording.
  \<open>state_of\<close> reads the state a rebuild has left, whether it returned or threw.
\<close>

definition loaded :: engine where
  "loaded = initializeAudioContext
     \<lparr>activeEffectIds = [], audioContextInitialized = False, playbackRate = 1,
      connections = [], paramConnections = [], nextNode = 0, effectNodes = [],
      started = [], animationLoops = []\<rparr>"

definition all_supported :: "node_kind \<Rightarrow> bool" where
  "all_supported k = True"

definition no_script_processor :: "node_kind \<Rightarrow> bool" where
  "no_script_processor k = (k \<noteq> ScriptProcessor)"

definition loaded_session :: "string option \<Rightarrow> session" where
  "loaded_session fileName = initializeAudioContext
     \<lparr>activeEffectIds = [], audioContextInitialized = False, playbackRate = 1,
      connections = [], paramConnections = [], nextNode = 0, effectNodes = [],
      started = [], animationLoops = [],
      audioFile = fileName, audioUrl = True, contextState = Running, currentTime = 0,
      paused = True, isRecording = False, mediaRecorder = None, recordedChunks = [],
      downloads = []\<rparr>"

definition state_of :: "'a thrown + 'a engine_scheme \<Rightarrow> 'a engine_scheme" where
  "state_of r = (case r of Inl (e, st) \<Rightarrow> st | Inr st \<Rightarrow> st)"


lemmas run_defs =
  applyEffects_def toggle_def toggleEffect_def loaded_def initializeAudioContext_def
  activeEffects_def availableEffects_def fx_defs apply_straight_def all_supported_def
  no_script_processor_def speed_effect_active_def connect_def disconnect_def local_node_def
  Let_def

section \<open>The catalog is in ascending order of id\<close>

lemma effect_ids: "map effect_id availableEffects = [1..50]"
  by (simp add: availableEffects_def fx_defs upto_rec1)

lemma active_ids: "map effect_id (activeEffects ids) = filter (\<lambda>i. i \<in> set ids) [1..50]"
  by (simp add: activeEffects_def filter_map comp_def flip: effect_ids)



section \<open>Properties of the export file name\<close>

lemma filename_names:
  "filename f effs = originalName f @ ''-'' @
     (if effs = [] then ''original''
      else join ''-'' (map (\<lambda>n. replace_spaces (toLowerCase n)) (map effect_name effs))) @ ''.mp3''"
  by (simp add: filename_def effectNames_def comp_def)

lemma song_name: "originalName (Some ''song.mp3'') = ''song''"
  by (simp add: originalName_def)

lemma bass_boost_name: "replace_spaces (toLowerCase ''Bass Boost'') = ''bass-boost''"
  by (simp add: toLowerCase_def toLowerCase_char_def is_space_def)

lemma eight_d_name: "replace_spaces (toLowerCase ''8D Audio'') = ''8d-audio''"
  by (simp add: toLowerCase_def toLowerCase_char_def is_space_def)

lemma active_1_2: "activeEffects [2, 1] = [fx_bass_boost, fx_8d_audio]"
  by (simp add: activeEffects_def availableEffects_def fx_defs)

lemma active_none: "activeEffects [] = []"
  by (simp add: activeEffects_def)

lemma split_on_first: "\<exists>ws. split_on sep s = takeWhile (\<lambda>c. c \<noteq> sep) s # ws"
  by (induction s) (auto split: list.splits)

lemma originalName_eq:
  "originalName f =
     (case f of None \<Rightarrow> ''audio''
      | Some n \<Rightarrow> if takeWhile (\<lambda>c. c \<noteq> CHR ''.'') n = [] then ''audio''
                  else takeWhile (\<lambda>c. c \<noteq> CHR ''.'') n)"
proof (cases f)
  case None
  then show ?thesis by (simp add: originalName_def)
next
  case (Some n)
  obtain ws where "split_on CHR ''.'' n = takeWhile (\<lambda>c. c \<noteq> CHR ''.'') n # ws"
    using split_on_first by blast
  then show ?thesis using Some
    by (simp add: originalName_def)
qed

text \<open>
  C6. With the file \<open>song.mp3\<close> loaded, a recorder made while exactly the effects
  named Bass Boost and 8D Audio were active downloads its recording as
  \<open>song-bass-boost-8d-audio.mp3\<close> (names in lower case, white space replaced by a
  hyphen, joined by hyphens in processing order); a recorder made while no effect was
  active downloads it as \<open>song-original.mp3\<close>.
\<close>

theorem export_filename_song:
  "(capturedFile r = Some ''song.mp3''
      \<and> map effect_name (capturedEffects r) = [''Bass Boost'', ''8D Audio'']
     \<longrightarrow> downloadName (last (downloads (onstop r st))) = ''song-bass-boost-8d-audio.mp3'')
   \<and> (capturedFile r = Some ''song.mp3'' \<and> capturedEffects r = []
     \<longrightarrow> downloadName (last (downloads (onstop r st))) = ''song-original.mp3'')"
  by (simp add: onstop_def filename_names song_name bass_boost_name eight_d_name)

theorem export_filename_song_witness:
  "downloadName (last (downloads (onstop
       \<lparr>stream = 3, mimeType = ''audio/mp3'', recording = True,
        capturedFile = Some ''song.mp3'', capturedEffects = activeEffects [2, 1]\<rparr>
       (loaded_session (Some ''song.mp3''))))) = ''song-bass-boost-8d-audio.mp3''
   \<and> downloadName (last (downloads (onstop
       \<lparr>stream = 3, mimeType = ''audio/mp3'', recording = True,
        capturedFile = Some ''song.mp3'', capturedEffects = activeEffects []\<rparr>
       (loaded_session (Some ''song.mp3''))))) = ''song-original.mp3''"
proof -
  let ?s = "loaded_session (Some ''song.mp3'')"
  let ?b = "\<lparr>stream = 3, mimeType = ''audio/mp3'', recording = True,
        capturedFile = Some ''song.mp3'', capturedEffects = activeEffects [2, 1]\<rparr>"
  let ?n = "\<lparr>stream = 3, mimeType = ''audio/mp3'', recording = True,
        capturedFile = Some ''song.mp3'', capturedEffects = activeEffects []\<rparr>"
  have names: "map effect_name (capturedEffects ?b) = [''Bass Boost'', ''8D Audio'']"
    by (simp add: active_1_2 fx_bass_boost_def fx_8d_audio_def)
  have cf: "capturedFile ?b = Some ''song.mp3''" "capturedFile ?n = Some ''song.mp3''"
    by simp_all
  have none: "capturedEffects ?n = []"
    by (simp add: active_none)
  from export_filename_song [of ?b ?s] names cf(1)
  have "downloadName (last (downloads (onstop ?b ?s))) = ''song-bass-boost-8d-audio.mp3''"
    by blast
  moreover from export_filename_song [of ?n ?s] none cf(2)
  have "downloadName (last (downloads (onstop ?n ?s))) = ''song-original.mp3''"
    by blast
  ultimately show ?thesis by blast
qed

text \<open>
  C10, as the code has it. The download of every recorder is named
  \<open>base-effects.mp3\<close> and typed \<open>audio/mp3\<close>, whatever the extension of the loaded file
  and whatever MIME type the recorder was created with. The base is the part of the file
  name before its first dot; it is \<open>audio\<close> when no file is loaded and also when that
  part is empty (the file name is empty or starts with a dot).
\<close>

theorem export_filename_shape:
  "downloadName (last (downloads (onstop r st))) =
     (case capturedFile r of
        None \<Rightarrow> ''audio''
      | Some n \<Rightarrow> if takeWhile (\<lambda>c. c \<noteq> CHR ''.'') n = [] then ''audio''
                  else takeWhile (\<lambda>c. c \<noteq> CHR ''.'') n)
     @ ''-'' @ effectNames (capturedEffects r) @ ''.mp3''
   \<and> blobType (last (downloads (onstop r st))) = ''audio/mp3''"
  by (simp add: onstop_def filename_def originalName_eq)

theorem export_filename_shape_witness:
  "downloadName (last (downloads (onstop
       \<lparr>stream = 3, mimeType = [], recording = True,
        capturedFile = Some ''my.song.mp3'', capturedEffects = []\<rparr>
       (loaded_session (Some ''my.song.mp3''))))) = ''my-original.mp3''"
  using export_filename_shape [of
       "\<lparr>stream = 3, mimeType = [], recording = True,
        capturedFile = Some ''my.song.mp3'', capturedEffects = []\<rparr>"
       "loaded_session (Some ''my.song.mp3'')"]
  by (simp add: effectNames_def)

text \<open>
  The claim C10 as written takes the part before the first dot as the base in every
  case. For a file named \<open>.mp3\<close> that part is empty, and the download is named
  \<open>audio-original.mp3\<close>, not \<open>-original.mp3\<close>.
\<close>

theorem export_filename_dot_counterexample:
  "takeWhile (\<lambda>c. c \<noteq> CHR ''.'') ''.mp3'' = []
   \<and> downloadName (last (downloads (onstop
       \<lparr>stream = 3, mimeType = [], recording = True,
        capturedFile = Some ''.mp3'', capturedEffects = []\<rparr>
       (loaded_session (Some ''.mp3''))))) = ''audio-original.mp3''"
  by (simp add: onstop_def filename_def originalName_def effectNames_def)

section \<open>The random composite\<close>

text \<open>
  C9. Whatever the calls of \<^verbatim>\<open>Math.random()\<close> return, the three effects that Random FX
  selects and chains are three entries of the catalog other than the entry with id 47.
\<close>

theorem random_fx_excludes_itself:
  "47 \<notin> set (map effect_id (selectedEffects random))
   \<and> length (selectedEffects random) = 3
   \<and> set (selectedEffects random) \<subseteq> set availableEffects
   \<and> apply_effect supported random fx_random_fx st source
       = apply_chain supported random (selectedEffects random) st source"
proof -
  have sub: "set (selectedEffects random) \<subseteq> set availableEffectsCopy"
    unfolding selectedEffects_def using set_take_subset [of 3] set_shuffle by fastforce
  then have "47 \<notin> set (map effect_id (selectedEffects random))"
    by (auto simp: availableEffectsCopy_def)
  moreover have "length (shuffle random availableEffectsCopy) = 49"
    by (simp add: length_shuffle availableEffectsCopy_def availableEffects_def fx_defs)
  then have "length (selectedEffects random) = 3"
    by (simp add: selectedEffects_def)
  moreover have "set (selectedEffects random) \<subseteq> set availableEffects"
    using sub by (auto simp: availableEffectsCopy_def)
  moreover have "apply_effect supported random fx_random_fx st source
       = apply_chain supported random (selectedEffects random) st source"
    by (simp add: fx_random_fx_def)
  ultimately show ?thesis by blast
qed

section \<open>What the constructors keep and what a rebuild establishes\<close>

text \<open>
  \<open>gain_in\<close> lists the connections into the master gain node. A constructor only
  connects to its \<^verbatim>\<open>source\<close> parameter and to nodes it has created itself, so it adds no
  connection into the gain node (\<open>built\<close>); it leaves the ids, the recorded effect nodes
  and every running oscillator and animation loop as they are (\<open>kept\<close>), and it returns
  its \<^verbatim>\<open>source\<close> or a node created after it was called (\<open>fresh_or\<close>).
\<close>

definition gain_in :: "'a engine_scheme \<Rightarrow> (node \<times> node) list" where
  "gain_in st = filter (\<lambda>e. snd e = gainNode) (connections st)"

definition kept :: "'a engine_scheme \<Rightarrow> 'a engine_scheme \<Rightarrow> bool" where
  "kept st st' \<longleftrightarrow>
     activeEffectIds st' = activeEffectIds st
   \<and> audioContextInitialized st' = audioContextInitialized st
   \<and> effectNodes st' = effectNodes st
   \<and> nextNode st \<le> nextNode st'
   \<and> set (started st) \<subseteq> set (started st')
   \<and> set (animationLoops st) \<subseteq> set (animationLoops st')"

lemma kept_refl: "kept st st"
  by (simp add: kept_def)

lemma kept_trans: "kept a b \<Longrightarrow> kept b c \<Longrightarrow> kept a c"
  by (auto simp: kept_def)

lemma run_op_kept:
  "(run_op supported source base x st = Inr st' \<longrightarrow> kept st st')
 \<and> (run_op supported source base x st = Inl (e, st') \<longrightarrow> st' = st)"
  by (cases x) (auto simp: kept_def connect_def)


lemma run_ops_kept:
  "(run_ops supported source base xs st = Inr st' \<longrightarrow> kept st st')
 \<and> (run_ops supported source base xs st = Inl (e, st') \<longrightarrow> kept st st')"
proof (induction xs arbitrary: st)
  case Nil
  show ?case by (simp add: kept_refl)
next
  case (Cons x xs)
  show ?case
  proof (cases "run_op supported source base x st")
    case (Inl a)
    obtain e0 s0 where a: "a = (e0, s0)" by (cases a)
    with Inl have "s0 = st" using run_op_kept [of supported source base x st s0 e0] by simp
    with Inl a show ?thesis by (simp add: kept_refl)
  next
    case (Inr s1)
    then have k: "kept st s1" using run_op_kept by blast
    have "kept s1 st'" if "run_ops supported source base xs s1 = Inr st'
        \<or> run_ops supported source base xs s1 = Inl (e, st')"
      using Cons [of s1] that by blast
    then show ?thesis using Inr kept_trans [OF k]
      by simp
  qed
qed

lemma run_op_gain:
  assumes "source \<noteq> gainNode" "gainNode < base"
  shows "run_op supported source base x st = Inr st' \<Longrightarrow> gain_in st' = gain_in st"
  using assms by (cases x) (auto simp: gain_in_def connect_def local_node_def split: if_splits)

lemma run_ops_gain:
  assumes "source \<noteq> gainNode" "gainNode < base"
  shows "(run_ops supported source base xs st = Inr st' \<longrightarrow> gain_in st' = gain_in st)
 \<and> (run_ops supported source base xs st = Inl (e, st') \<longrightarrow> gain_in st' = gain_in st)"
proof (induction xs arbitrary: st)
  case Nil
  show ?case by simp
next
  case (Cons x xs)
  show ?case
  proof (cases "run_op supported source base x st")
    case (Inl a)
    obtain e0 s0 where a: "a = (e0, s0)" by (cases a)
    with Inl have "s0 = st" using run_op_kept [of supported source base x st s0 e0] by simp
    with Inl a show ?thesis by simp
  next
    case (Inr s1)
    then have g: "gain_in s1 = gain_in st" using run_op_gain [OF assms] by blast
    have "gain_in st' = gain_in s1" if "run_ops supported source base xs s1 = Inr st'
        \<or> run_ops supported source base xs s1 = Inl (e, st')"
      using Cons [of s1] that by blast
    then show ?thesis using Inr g
      by simp
  qed
qed

lemma run_ops_kept_ok: "run_ops supported source base xs st = Inr st' \<Longrightarrow> kept st st'"
  using run_ops_kept by blast

lemma run_ops_kept_thrown: "run_ops supported source base xs st = Inl (e, st') \<Longrightarrow> kept st st'"
  using run_ops_kept by blast

lemma run_ops_gain_ok:
  "source \<noteq> gainNode \<Longrightarrow> gainNode < base \<Longrightarrow> run_ops supported source base xs st = Inr st'
    \<Longrightarrow> gain_in st' = gain_in st"
  using run_ops_gain by blast

lemma run_ops_gain_thrown:
  "source \<noteq> gainNode \<Longrightarrow> gainNode < base \<Longrightarrow> run_ops supported source base xs st = Inl (e, st')
    \<Longrightarrow> gain_in st' = gain_in st"
  using run_ops_gain by blast

definition fresh_or :: "node \<Rightarrow> 'a engine_scheme \<Rightarrow> node \<Rightarrow> bool" where
  "fresh_or source st n \<longleftrightarrow> n = source \<or> nextNode st \<le> n"

lemma apply_straight_ok:
  assumes "apply_straight supported ops ret st source = Inr (st', n)"
  shows "kept st st'" and "fresh_or source st n"
    and "source \<noteq> gainNode \<Longrightarrow> gainNode < nextNode st \<Longrightarrow> gain_in st' = gain_in st"
proof -
  from assms have r: "run_ops supported source (nextNode st) ops st = Inr st'"
    and n: "n = local_node source (nextNode st) ret"
    by (simp_all add: apply_straight_def split: sum.splits)
  show "kept st st'" by (rule run_ops_kept_ok [OF r])
  show "fresh_or source st n" by (auto simp add: n fresh_or_def local_node_def)
  show "gain_in st' = gain_in st" if "source \<noteq> gainNode" "gainNode < nextNode st"
    by (rule run_ops_gain_ok [OF that r])
qed

lemma apply_straight_thrown:
  assumes "apply_straight supported ops ret st source = Inl (e, st')"
  shows "kept st st'"
    and "source \<noteq> gainNode \<Longrightarrow> gainNode < nextNode st \<Longrightarrow> gain_in st' = gain_in st"
proof -
  from assms have r: "run_ops supported source (nextNode st) ops st = Inl (e, st')"
    by (simp add: apply_straight_def split: sum.splits)
  show "kept st st'" by (rule run_ops_kept_thrown [OF r])
  show "gain_in st' = gain_in st" if "source \<noteq> gainNode" "gainNode < nextNode st"
    by (rule run_ops_gain_thrown [OF that r])
qed

definition built :: "node \<Rightarrow> 'a engine_scheme \<Rightarrow> 'a engine_scheme \<Rightarrow> bool" where
  "built source st st' \<longleftrightarrow>
     kept st st' \<and> (source \<noteq> gainNode \<and> gainNode < nextNode st \<longrightarrow> gain_in st' = gain_in st)"

lemma built_refl: "built source st st"
  by (simp add: built_def kept_refl)

lemma built_trans:
  assumes "built source st s1" "fresh_or source st n1" "built n1 s1 s2"
  shows "built source st s2"
proof -
  have k: "kept st s2" using assms kept_trans by (auto simp: built_def)
  have "gain_in s2 = gain_in st" if "source \<noteq> gainNode" "gainNode < nextNode st"
  proof -
    have "n1 \<noteq> gainNode" using assms(2) that by (auto simp: fresh_or_def)
    moreover have "gainNode < nextNode s1" using assms(1) that by (auto simp: built_def kept_def)
    ultimately have "gain_in s2 = gain_in s1" using assms(3) by (simp add: built_def)
    then show ?thesis using assms(1) that by (simp add: built_def)
  qed
  with k show ?thesis by (simp add: built_def)
qed

lemma fresh_or_trans:
  assumes "fresh_or source st n1" "kept st s1" "fresh_or n1 s1 n"
  shows "fresh_or source st n"
  using assms by (auto simp: fresh_or_def kept_def)

lemma apply_straight_built:
  "apply_straight supported ops ret st source = Inr (st', n) \<Longrightarrow> built source st st' \<and> fresh_or source st n"
  "apply_straight supported ops ret st source = Inl (e, st') \<Longrightarrow> built source st st'"
  using apply_straight_ok [of supported ops ret st source st' n]
    apply_straight_thrown [of supported ops ret st source e st']
  by (simp_all add: built_def)

lemma apply_chain_built:
  assumes "\<forall>e \<in> set effs. apply_body e \<noteq> RandomFX"
  shows "(apply_chain supported random effs st cur = Inr (st', n) \<longrightarrow> built cur st st' \<and> fresh_or cur st n)
    \<and> (apply_chain supported random effs st cur = Inl (err, st') \<longrightarrow> built cur st st')"
  using assms
proof (induction effs arbitrary: st cur)
  case Nil
  show ?case by (simp add: built_refl fresh_or_def)
next
  case (Cons e effs)
  then obtain ops ret where body: "apply_body e = Straight ops ret"
    by (cases "apply_body e") auto
  show ?case
  proof (cases "apply_straight supported ops ret st cur")
    case (Inl a)
    obtain e0 s0 where a: "a = (e0, s0)" by (cases a)
    have "built cur st s0" using apply_straight_built(2) Inl a by blast
    then show ?thesis using Inl a body by auto
  next
    case (Inr b)
    obtain s1 n1 where b: "b = (s1, n1)" by (cases b)
    have h: "built cur st s1" "fresh_or cur st n1"
      using apply_straight_built(1) Inr b by blast+
    have ih: "(apply_chain supported random effs s1 n1 = Inr (st', n) \<longrightarrow> built n1 s1 st' \<and> fresh_or n1 s1 n)
      \<and> (apply_chain supported random effs s1 n1 = Inl (err, st') \<longrightarrow> built n1 s1 st')"
      using Cons by simp
    have k: "kept st s1" using h(1) by (simp add: built_def)
    have 1: "built cur st st' \<and> fresh_or cur st n"
      if "apply_chain supported random effs s1 n1 = Inr (st', n)"
      using ih that built_trans [OF h] fresh_or_trans [OF h(2) k] by blast
    have 2: "built cur st st'"
      if "apply_chain supported random effs s1 n1 = Inl (err, st')"
      using ih that built_trans [OF h] by blast
    show ?thesis using Inr b body 1 2 by simp
  qed
qed

lemma apply_effect_built:
  "(apply_effect supported random effect st cur = Inr (st', n) \<longrightarrow> built cur st st' \<and> fresh_or cur st n)
    \<and> (apply_effect supported random effect st cur = Inl (err, st') \<longrightarrow> built cur st st')"
proof (cases "apply_body effect")
  case (Straight ops ret)
  then show ?thesis
    using apply_straight_built(1) [of supported ops ret st cur st' n]
      apply_straight_built(2) [of supported ops ret st cur err st'] by simp
next
  case RandomFX
  then show ?thesis
    using apply_chain_built [of "selectedEffects random" supported random st cur st' n err]
      selected_straight by simp
qed

lemmas apply_effect_ok = apply_effect_built [THEN conjunct1, rule_format]
lemmas apply_effect_thrown = apply_effect_built [THEN conjunct2, rule_format]

fun ops_rate :: "op list \<Rightarrow> rat \<Rightarrow> rat" where
  "ops_rate [] r = r"
| "ops_rate (SetPlaybackRate x # ops) r = ops_rate ops x"
| "ops_rate (_ # ops) r = ops_rate ops r"

definition straight_rate :: "audio_effect \<Rightarrow> rat \<Rightarrow> rat" where
  "straight_rate effect r =
     (case apply_body effect of Straight ops ret \<Rightarrow> ops_rate ops r | RandomFX \<Rightarrow> r)"

definition effect_rate :: "(nat \<Rightarrow> rat) \<Rightarrow> audio_effect \<Rightarrow> rat \<Rightarrow> rat" where
  "effect_rate random effect r =
     (case apply_body effect of
        Straight ops ret \<Rightarrow> ops_rate ops r
      | RandomFX \<Rightarrow> fold straight_rate (selectedEffects random) r)"

lemma run_op_rate:
  "run_op supported source base x st = Inr st' \<Longrightarrow> playbackRate st' = ops_rate [x] (playbackRate st)"
  by (cases x) (auto simp: connect_def split: if_splits)

lemma ops_rate_Cons: "ops_rate (x # xs) r = ops_rate xs (ops_rate [x] r)"
  by (cases x) simp_all

lemma run_ops_rate:
  "run_ops supported source base xs st = Inr st' \<Longrightarrow> playbackRate st' = ops_rate xs (playbackRate st)"
proof (induction xs arbitrary: st)
  case Nil
  then show ?case by simp
next
  case (Cons x xs)
  then obtain s1 where s1: "run_op supported source base x st = Inr s1"
    and rest: "run_ops supported source base xs s1 = Inr st'"
    by (auto split: sum.splits)
  from Cons.IH [OF rest] run_op_rate [OF s1] show ?case
    by (subst ops_rate_Cons) simp
qed

lemma apply_chain_rate:
  assumes "\<forall>e \<in> set effs. apply_body e \<noteq> RandomFX"
    and "apply_chain supported random effs st cur = Inr (st', n)"
  shows "playbackRate st' = fold straight_rate effs (playbackRate st)"
  using assms
proof (induction effs arbitrary: st cur)
  case Nil
  then show ?case by simp
next
  case (Cons e effs)
  then obtain ops ret where body: "apply_body e = Straight ops ret"
    by (cases "apply_body e") auto
  from Cons.prems(2) body obtain s1 n1
    where s1: "apply_straight supported ops ret st cur = Inr (s1, n1)"
      and rest: "apply_chain supported random effs s1 n1 = Inr (st', n)"
    by (auto split: sum.splits)
  from s1 have "run_ops supported cur (nextNode st) ops st = Inr s1"
    by (simp add: apply_straight_def split: sum.splits)
  then have "playbackRate s1 = straight_rate e (playbackRate st)"
    using run_ops_rate by (simp add: straight_rate_def body)
  moreover have "playbackRate st' = fold straight_rate effs (playbackRate s1)"
    using Cons.IH [OF _ rest] Cons.prems(1) by simp
  ultimately show ?case by simp
qed

lemma apply_effect_rate:
  assumes "apply_effect supported random effect st cur = Inr (st', n)"
  shows "playbackRate st' = effect_rate random effect (playbackRate st)"
proof (cases "apply_body effect")
  case (Straight ops ret)
  with assms have "run_ops supported cur (nextNode st) ops st = Inr st'"
    by (simp add: apply_straight_def split: sum.splits)
  then show ?thesis using run_ops_rate by (simp add: effect_rate_def Straight)
next
  case RandomFX
  with assms have "apply_chain supported random (selectedEffects random) st cur = Inr (st', n)"
    by simp
  from apply_chain_rate [OF _ this] selected_straight show ?thesis
    by (simp add: effect_rate_def RandomFX)
qed

definition rebuilt :: "node \<Rightarrow> 'a engine_scheme \<Rightarrow> 'a engine_scheme \<Rightarrow> bool" where
  "rebuilt source st st' \<longleftrightarrow> built source (st\<lparr>effectNodes := effectNodes st'\<rparr>) st'"

lemma rebuilt_unfold:
  "rebuilt source st st' \<longleftrightarrow>
     activeEffectIds st' = activeEffectIds st
   \<and> audioContextInitialized st' = audioContextInitialized st
   \<and> nextNode st \<le> nextNode st'
   \<and> set (started st) \<subseteq> set (started st')
   \<and> set (animationLoops st) \<subseteq> set (animationLoops st')
   \<and> (source \<noteq> gainNode \<and> gainNode < nextNode st \<longrightarrow> gain_in st' = gain_in st)"
  by (auto simp: rebuilt_def built_def kept_def gain_in_def)

lemma rebuilt_refl: "rebuilt source st st"
  by (simp add: rebuilt_unfold)

lemma built_rebuilt: "built source st st' \<Longrightarrow> rebuilt source st (st'\<lparr>effectNodes := m\<rparr>)"
  by (auto simp: rebuilt_unfold built_def kept_def gain_in_def)

lemma rebuilt_trans:
  assumes "rebuilt source st s1" "fresh_or source st n1" "rebuilt n1 s1 s2"
  shows "rebuilt source st s2"
proof -
  have "gain_in s2 = gain_in st" if "source \<noteq> gainNode" "gainNode < nextNode st"
  proof -
    have "n1 \<noteq> gainNode" using assms(2) that by (auto simp: fresh_or_def)
    moreover have "gainNode < nextNode s1" using assms(1) that by (auto simp: rebuilt_unfold)
    ultimately have "gain_in s2 = gain_in s1" using assms(3) by (simp add: rebuilt_unfold)
    then show ?thesis using assms(1) that by (simp add: rebuilt_unfold)
  qed
  moreover have "nextNode st \<le> nextNode s2" "set (started st) \<subseteq> set (started s2)"
    "set (animationLoops st) \<subseteq> set (animationLoops s2)"
    "activeEffectIds s2 = activeEffectIds st" "audioContextInitialized s2 = audioContextInitialized st"
    using assms(1,3) by (auto simp: rebuilt_unfold)
  ultimately show ?thesis by (simp add: rebuilt_unfold)
qed

lemma fresh_or_rebuilt_trans:
  assumes "fresh_or source st n1" "rebuilt source st s1" "fresh_or n1 s1 n"
  shows "fresh_or source st n"
  using assms by (auto simp: fresh_or_def rebuilt_unfold)

lemma apply_active_thrown:
  "apply_active supported random effs st cur = Inl (err, st') \<Longrightarrow> rebuilt cur st st'"
proof (induction effs arbitrary: st cur)
  case Nil
  then show ?case by simp
next
  case (Cons e effs)
  show ?case
  proof (cases "apply_effect supported random e st cur")
    case (Inl a)
    with Cons.prems have "apply_effect supported random e st cur = Inl (err, st')" by simp
    from apply_effect_thrown [OF this] show ?thesis
      using built_rebuilt [of cur st st' "effectNodes st'"] by simp
  next
    case (Inr b)
    obtain s1 n1 where b: "b = (s1, n1)" by (cases b)
    let ?s = "s1\<lparr>effectNodes := AList.update (effect_id e) n1 (effectNodes s1)\<rparr>"
    from Inr b apply_effect_ok have h: "built cur st s1" "fresh_or cur st n1" by blast+
    from Cons.prems Inr b have "apply_active supported random effs ?s n1 = Inl (err, st')" by simp
    from Cons.IH [OF this] have "rebuilt n1 ?s st'" .
    from rebuilt_trans [OF built_rebuilt [OF h(1)] h(2) this] show ?thesis .
  qed
qed

lemma apply_active_ok:
  "apply_active supported random effs st cur = Inr (st', n) \<Longrightarrow>
     rebuilt cur st st' \<and> fresh_or cur st n
   \<and> playbackRate st' = fold (effect_rate random) effs (playbackRate st)
   \<and> (if effs = [] then n = cur \<and> effectNodes st' = effectNodes st
       else (effect_id (last effs), n) \<in> set (effectNodes st'))"
proof (induction effs arbitrary: st cur)
  case Nil
  then show ?case by (simp add: rebuilt_refl fresh_or_def)
next
  case (Cons e effs)
  from Cons.prems obtain s1 n1 where s1: "apply_effect supported random e st cur = Inr (s1, n1)"
    by (auto split: sum.splits)
  let ?s = "s1\<lparr>effectNodes := AList.update (effect_id e) n1 (effectNodes s1)\<rparr>"
  from s1 apply_effect_ok have h: "built cur st s1" "fresh_or cur st n1" by blast+
  from Cons.prems s1 have rest: "apply_active supported random effs ?s n1 = Inr (st', n)" by simp
  note ih = Cons.IH [OF rest]
  have r1: "rebuilt cur st ?s" by (rule built_rebuilt [OF h(1)])
  have "rebuilt cur st st'" using rebuilt_trans [OF r1 h(2)] ih by blast
  moreover have "fresh_or cur st n" using fresh_or_rebuilt_trans [OF h(2) r1] ih by blast
  moreover have "playbackRate st' = fold (effect_rate random) (e # effs) (playbackRate st)"
    using ih apply_effect_rate [OF s1] by simp
  moreover have "(effect_id (last (e # effs)), n) \<in> set (effectNodes st')"
  proof (cases "effs = []")
    case True
    with ih have "n = n1" "effectNodes st' = AList.update (effect_id e) n1 (effectNodes s1)"
      by simp_all
    moreover have "(effect_id e, n1) \<in> set (AList.update (effect_id e) n1 (effectNodes s1))"
      by (rule map_of_SomeD) (simp add: update_conv')
    ultimately show ?thesis using True by simp
  next
    case False
    with ih show ?thesis by simp
  qed
  ultimately show ?case by simp
qed

lemma update_keys_fresh:
  "k \<notin> set (map fst al) \<Longrightarrow> map fst (AList.update k v al) = map fst al @ [k]"
  by (simp add: update_keys)

lemma apply_active_keys:
  assumes "distinct (map fst (effectNodes st) @ map effect_id effs)"
  shows "(apply_active supported random effs st cur = Inr (st', n) \<longrightarrow>
           map fst (effectNodes st') = map fst (effectNodes st) @ map effect_id effs)
       \<and> (apply_active supported random effs st cur = Inl (err, st') \<longrightarrow>
           (\<exists>k < length effs.
              map fst (effectNodes st') = map fst (effectNodes st) @ map effect_id (take k effs)))"
  using assms
proof (induction effs arbitrary: st cur)
  case Nil
  show ?case by simp
next
  case (Cons e effs)
  show ?case
  proof (cases "apply_effect supported random e st cur")
    case (Inl a)
    obtain e0 s0 where a: "a = (e0, s0)" by (cases a)
    from apply_effect_thrown Inl a have "built cur st s0" by blast
    then have "effectNodes s0 = effectNodes st" by (simp add: built_def kept_def)
    then have "map fst (effectNodes s0) = map fst (effectNodes st) @ map effect_id (take 0 (e # effs))"
      by simp
    then show ?thesis using Inl a by auto
  next
    case (Inr b)
    obtain s1 n1 where b: "b = (s1, n1)" by (cases b)
    let ?s = "s1\<lparr>effectNodes := AList.update (effect_id e) n1 (effectNodes s1)\<rparr>"
    from apply_effect_ok Inr b have "built cur st s1" by blast
    then have same: "effectNodes s1 = effectNodes st" by (simp add: built_def kept_def)
    have keys: "map fst (effectNodes ?s) = map fst (effectNodes st) @ [effect_id e]"
      using Cons.prems same by (simp add: update_keys_fresh)
    then have d: "distinct (map fst (effectNodes ?s) @ map effect_id effs)"
      using Cons.prems by simp
    note ih = Cons.IH [OF d, of n1]
    have 1: "map fst (effectNodes st') = map fst (effectNodes st) @ map effect_id (e # effs)"
      if "apply_active supported random effs ?s n1 = Inr (st', n)"
      using ih that keys by simp
    have 2: "\<exists>k < length (e # effs).
        map fst (effectNodes st') = map fst (effectNodes st) @ map effect_id (take k (e # effs))"
      if "apply_active supported random effs ?s n1 = Inl (err, st')"
    proof -
      from ih that obtain k where "k < length effs"
        "map fst (effectNodes st') = map fst (effectNodes ?s) @ map effect_id (take k effs)"
        by blast
      then have "Suc k < length (e # effs)"
        "map fst (effectNodes st') = map fst (effectNodes st) @ map effect_id (take (Suc k) (e # effs))"
        using keys by simp_all
      then show ?thesis by blast
    qed
    show ?thesis using Inr b 1 2 by simp
  qed
qed

lemma active_distinct: "distinct (map effect_id (activeEffects ids))"
  by (simp add: active_ids)

lemma fold_disconnect:
  "fold disconnect ns st =
     st\<lparr>connections := filter (\<lambda>e. fst e \<notin> set ns) (connections st),
        paramConnections := filter (\<lambda>e. fst e \<notin> set ns) (paramConnections st)\<rparr>"
proof (induction ns arbitrary: st)
  case Nil
  show ?case by simp
next
  case (Cons n ns)
  have "fold disconnect (n # ns) st = fold disconnect ns (disconnect n st)"
    by simp
  also have "\<dots> = (disconnect n st)
      \<lparr>connections := filter (\<lambda>e. fst e \<notin> set ns) (connections (disconnect n st)),
       paramConnections := filter (\<lambda>e. fst e \<notin> set ns) (paramConnections (disconnect n st))\<rparr>"
    by (rule Cons)
  also have "\<dots> = st\<lparr>connections := filter (\<lambda>e. fst e \<notin> set (n # ns)) (connections st),
        paramConnections := filter (\<lambda>e. fst e \<notin> set (n # ns)) (paramConnections st)\<rparr>"
    by (simp add: disconnect_def conj_commute)
  finally show ?case .
qed

definition cleared :: "'a engine_scheme \<Rightarrow> 'a engine_scheme" where
  "cleared st = disconnect sourceNode ((fold disconnect (map snd (effectNodes st)) st)\<lparr>effectNodes := []\<rparr>)"

lemma cleared_fields:
  "activeEffectIds (cleared st) = activeEffectIds st"
  "audioContextInitialized (cleared st) = audioContextInitialized st"
  "playbackRate (cleared st) = playbackRate st"
  "nextNode (cleared st) = nextNode st"
  "effectNodes (cleared st) = []"
  "started (cleared st) = started st"
  "animationLoops (cleared st) = animationLoops st"
  by (simp_all add: cleared_def fold_disconnect disconnect_def)

lemma cleared_connections:
  "connections (cleared st) =
     filter (\<lambda>e. fst e \<noteq> sourceNode \<and> fst e \<notin> snd ` set (effectNodes st)) (connections st)"
  unfolding cleared_def fold_disconnect disconnect_def
  by (simp add: conj_commute)

lemma applyEffects_cleared:
  "applyEffects supported random st =
     (if \<not> audioContextInitialized st then Inr st
      else case apply_active supported random (activeEffects (activeEffectIds st)) (cleared st) sourceNode of
             Inl e \<Rightarrow> Inl e
           | Inr (st4, currentNode) \<Rightarrow>
               Inr (if \<not> speed_effect_active (activeEffects (activeEffectIds st))
                    then (connect currentNode gainNode st4)\<lparr>playbackRate := 1\<rparr>
                    else connect currentNode gainNode st4))"
  by (simp add: applyEffects_def cleared_def Let_def split: sum.splits prod.splits)

text \<open>
  \<open>wired\<close> holds of the state after \<^verbatim>\<open>initializeAudioContext\<close> and after every rebuild:
  the source, gain and destination nodes exist, and only the source node and recorded
  effect nodes feed the master gain node.
\<close>

definition wired :: "'a engine_scheme \<Rightarrow> bool" where
  "wired st \<longleftrightarrow>
     destinationNode < nextNode st
   \<and> (\<forall>e \<in> set (connections st).
         snd e = gainNode \<longrightarrow> fst e = sourceNode \<or> fst e \<in> snd ` set (effectNodes st))"

lemma gain_in_cleared: "wired st \<Longrightarrow> gain_in (cleared st) = []"
  by (auto simp: gain_in_def cleared_connections wired_def filter_empty_conv)

lemma wired_loaded: "wired loaded"
  by (simp add: wired_def loaded_def initializeAudioContext_def)

lemma applyEffects_thrown:
  assumes "applyEffects supported random st = Inl (err, st')"
  shows "audioContextInitialized st"
    and "activeEffectIds st' = activeEffectIds st"
    and "\<exists>k < length (activeEffects (activeEffectIds st)).
           map fst (effectNodes st') = map effect_id (take k (activeEffects (activeEffectIds st)))"
    and "wired st \<Longrightarrow> gain_in st' = []"
    and "set (animationLoops st) \<subseteq> set (animationLoops st')"
proof -
  let ?effs = "activeEffects (activeEffectIds st)"
  from assms show init: "audioContextInitialized st"
    by (auto simp: applyEffects_cleared split: if_splits)
  with assms have t: "apply_active supported random ?effs (cleared st) sourceNode = Inl (err, st')"
    by (auto simp: applyEffects_cleared split: sum.splits prod.splits)
  from apply_active_thrown [OF t] have r: "rebuilt sourceNode (cleared st) st'" .
  then show "activeEffectIds st' = activeEffectIds st"
    by (simp add: rebuilt_unfold cleared_fields)
  have "distinct (map fst (effectNodes (cleared st)) @ map effect_id ?effs)"
    by (simp add: cleared_fields active_distinct)
  from apply_active_keys [OF this, of supported random sourceNode st' _ err] t
  show "\<exists>k < length ?effs. map fst (effectNodes st') = map effect_id (take k ?effs)"
    by (simp add: cleared_fields)
  show "gain_in st' = []" if "wired st"
    using r that gain_in_cleared [OF that] by (simp add: rebuilt_unfold cleared_fields wired_def)
  show "set (animationLoops st) \<subseteq> set (animationLoops st')"
    using r by (simp add: rebuilt_unfold cleared_fields)
qed

lemma applyEffects_ok:
  assumes "applyEffects supported random st = Inr st'" "audioContextInitialized st"
  shows "activeEffectIds st' = activeEffectIds st"
    and "audioContextInitialized st'"
    and "map fst (effectNodes st') = map effect_id (activeEffects (activeEffectIds st))"
    and "playbackRate st' =
          (if speed_effect_active (activeEffects (activeEffectIds st))
           then fold (effect_rate random) (activeEffects (activeEffectIds st)) (playbackRate st)
           else 1)"
    and "set (animationLoops st) \<subseteq> set (animationLoops st')"
    and "set (started st) \<subseteq> set (started st')"
    and "wired st \<Longrightarrow> wired st'"
    and "wired st \<Longrightarrow> \<exists>n. gain_in st' = [(n, gainNode)]"
    and "nextNode st \<le> nextNode st'"
proof -
  let ?effs = "activeEffects (activeEffectIds st)"
  from assms obtain st4 n
    where a: "apply_active supported random ?effs (cleared st) sourceNode = Inr (st4, n)"
      and st': "st' = (if \<not> speed_effect_active ?effs
                      then (connect n gainNode st4)\<lparr>playbackRate := 1\<rparr>
                      else connect n gainNode st4)"
    by (auto simp: applyEffects_cleared split: sum.splits prod.splits)
  note ok = apply_active_ok [OF a]
  from ok have r: "rebuilt sourceNode (cleared st) st4" by blast
  show "activeEffectIds st' = activeEffectIds st"
    using r by (simp add: st' rebuilt_unfold cleared_fields connect_def)
  show "audioContextInitialized st'"
    using r assms(2) by (simp add: st' rebuilt_unfold cleared_fields connect_def)
  have "distinct (map fst (effectNodes (cleared st)) @ map effect_id ?effs)"
    by (simp add: cleared_fields active_distinct)
  from apply_active_keys [OF this, of supported random sourceNode st4 n] a
  show "map fst (effectNodes st') = map effect_id ?effs"
    by (simp add: st' cleared_fields connect_def)
  show "playbackRate st' = (if speed_effect_active ?effs
           then fold (effect_rate random) ?effs (playbackRate st) else 1)"
    using ok by (simp add: st' cleared_fields connect_def)
  show "set (animationLoops st) \<subseteq> set (animationLoops st')"
    using r by (simp add: st' rebuilt_unfold cleared_fields connect_def)
  show "set (started st) \<subseteq> set (started st')"
    using r by (simp add: st' rebuilt_unfold cleared_fields connect_def)
  show "nextNode st \<le> nextNode st'"
    using r by (simp add: st' rebuilt_unfold cleared_fields connect_def)
  have g4: "gain_in st4 = []" if "wired st"
    using r that gain_in_cleared [OF that] by (simp add: rebuilt_unfold cleared_fields wired_def)
  then show "\<exists>n. gain_in st' = [(n, gainNode)]" if "wired st"
    using that by (simp add: st' gain_in_def connect_def)
  show "wired st'" if "wired st"
  proof -
    have n: "n = sourceNode \<or> n \<in> snd ` set (effectNodes st4)"
      using ok by (cases "?effs = []") (auto simp: rev_image_eqI)
    have "nextNode st \<le> nextNode st4" using r by (simp add: rebuilt_unfold cleared_fields)
    then have "destinationNode < nextNode st'" using that by (simp add: st' wired_def connect_def)
    moreover have "fst e = sourceNode \<or> fst e \<in> snd ` set (effectNodes st')"
      if e: "e \<in> set (connections st')" "snd e = gainNode" for e
    proof -
      from e have "e \<in> set (gain_in st4) \<or> e = (n, gainNode)"
        by (auto simp: st' gain_in_def connect_def split: if_splits)
      with g4 [OF \<open>wired st\<close>] have "e = (n, gainNode)" by simp
      with n show ?thesis by (auto simp: st' connect_def)
    qed
    ultimately show ?thesis by (simp add: wired_def)
  qed
qed





lemma applyEffects_thrown_wired:
  assumes "applyEffects supported random st = Inl (err, st')" "wired st"
  shows "wired st'"
proof -
  let ?effs = "activeEffects (activeEffectIds st)"
  from assms(1) have "audioContextInitialized st"
    by (auto simp: applyEffects_cleared split: if_splits)
  with assms have t: "apply_active supported random ?effs (cleared st) sourceNode = Inl (err, st')"
    by (auto simp: applyEffects_cleared split: sum.splits prod.splits)
  from apply_active_thrown [OF t] have "nextNode st \<le> nextNode st'"
    by (simp add: rebuilt_unfold cleared_fields)
  moreover from applyEffects_thrown(4) [OF assms] have "\<forall>e \<in> set (connections st'). snd e \<noteq> gainNode"
    by (simp add: gain_in_def filter_empty_conv)
  ultimately show ?thesis using assms(2) by (simp add: wired_def)
qed

section \<open>The order of the chain\<close>



section \<open>Toggling an id that is not in the catalog\<close>















section \<open>The playback rate after a rebuild\<close>

lemma active_subset: "set (activeEffects ids) \<subseteq> set availableEffects"
  by (auto simp: activeEffects_def)

lemma active_no_random:
  assumes "47 \<notin> set ids" "e \<in> set (activeEffects ids)"
  shows "apply_body e \<noteq> RandomFX"
proof -
  from assms(2) have "e \<in> set availableEffects" "effect_id e \<in> set ids"
    by (auto simp: activeEffects_def)
  with assms(1) random_fx_only show ?thesis by metis
qed

lemma effect_rate_straight:
  "apply_body e \<noteq> RandomFX \<Longrightarrow> effect_rate random e = straight_rate e"
  by (cases "apply_body e") (auto simp: effect_rate_def straight_rate_def fun_eq_iff)

lemma fold_rate_straight:
  assumes "\<forall>e \<in> set effs. apply_body e \<noteq> RandomFX"
  shows "fold (effect_rate random) effs r = fold straight_rate effs r"
  using assms by (induction effs arbitrary: r) (simp_all add: effect_rate_straight)

definition writes_rate :: "audio_effect \<Rightarrow> bool" where
  "writes_rate e \<longleftrightarrow> (\<forall>r r'. straight_rate e r = straight_rate e r')"

lemma fold_rate_writer:
  assumes "\<exists>e \<in> set effs. writes_rate e"
  shows "fold straight_rate effs r = fold straight_rate effs r'"
  using assms
proof (induction effs arbitrary: r r')
  case Nil
  then show ?case by simp
next
  case (Cons e effs)
  show ?case
  proof (cases "writes_rate e")
    case True
    then have "straight_rate e r = straight_rate e r'" by (simp add: writes_rate_def)
    then show ?thesis by simp
  next
    case False
    with Cons.prems have "\<exists>e \<in> set effs. writes_rate e" by simp
    from Cons.IH [OF this] show ?thesis by simp
  qed
qed

lemma speed_effects:
  assumes "e \<in> set availableEffects"
    and "effect_name e \<in> set [''Nightcore'', ''Vaporwave'', ''Pitch Shift Up'', ''Pitch Shift Down'']"
  shows "e \<in> {fx_nightcore, fx_vaporwave, fx_pitch_shift_up, fx_pitch_shift_down}"
proof -
  have "filter (\<lambda>e. effect_name e
          \<in> set [''Nightcore'', ''Vaporwave'', ''Pitch Shift Up'', ''Pitch Shift Down'']) availableEffects
      = [fx_nightcore, fx_vaporwave, fx_pitch_shift_up, fx_pitch_shift_down]"
    by (simp add: availableEffects_def fx_defs)
  moreover from assms have "e \<in> set (filter (\<lambda>e. effect_name e
          \<in> set [''Nightcore'', ''Vaporwave'', ''Pitch Shift Up'', ''Pitch Shift Down'']) availableEffects)"
    by simp
  ultimately show ?thesis by simp
qed

lemma speed_effect_writes:
  assumes "speed_effect_active effs" "set effs \<subseteq> set availableEffects"
  shows "\<exists>e \<in> set effs. writes_rate e"
proof -
  from assms(1) obtain e where e: "e \<in> set effs"
    "effect_name e \<in> set [''Nightcore'', ''Vaporwave'', ''Pitch Shift Up'', ''Pitch Shift Down'']"
    by (auto simp: speed_effect_active_def list_ex_iff)
  with assms(2) speed_effects have "e \<in> {fx_nightcore, fx_vaporwave, fx_pitch_shift_up, fx_pitch_shift_down}"
    by blast
  then have "writes_rate e"
    by (auto simp: writes_rate_def straight_rate_def fx_nightcore_def fx_vaporwave_def
        fx_pitch_shift_up_def fx_pitch_shift_down_def)
  with e(1) show ?thesis by blast
qed

lemma rate_after_rebuild:
  assumes "applyEffects supported random st = Inr st'" "audioContextInitialized st"
    and "47 \<notin> set (activeEffectIds st)"
  shows "playbackRate st' =
          (if speed_effect_active (activeEffects (activeEffectIds st))
           then fold straight_rate (activeEffects (activeEffectIds st)) 1 else 1)"
proof -
  let ?effs = "activeEffects (activeEffectIds st)"
  have straight: "\<forall>e \<in> set ?effs. apply_body e \<noteq> RandomFX"
    using active_no_random [OF assms(3)] by blast
  show ?thesis
  proof (cases "speed_effect_active ?effs")
    case False
    with applyEffects_ok(4) [OF assms(1,2)] show ?thesis by simp
  next
    case True
    from speed_effect_writes [OF True active_subset]
    have "fold straight_rate ?effs (playbackRate st) = fold straight_rate ?effs 1"
      by (rule fold_rate_writer)
    with applyEffects_ok(4) [OF assms(1,2)] True fold_rate_straight [OF straight]
    show ?thesis by simp
  qed
qed

text \<open>
  The rates a constructor writes, in order. Without Random FX and with one of the four
  effects of the reset's list active, the rate after a rebuild is the last rate written
  by the active effects in catalog order, or 1 when none of them writes one.
\<close>

fun ops_writes :: "op list \<Rightarrow> rat list" where
  "ops_writes [] = []"
| "ops_writes (SetPlaybackRate x # ops) = x # ops_writes ops"
| "ops_writes (_ # ops) = ops_writes ops"

definition rate_writes :: "audio_effect \<Rightarrow> rat list" where
  "rate_writes effect =
     (case apply_body effect of Straight ops ret \<Rightarrow> ops_writes ops | RandomFX \<Rightarrow> [])"

lemma ops_rate_last: "ops_rate ops r = last (r # ops_writes ops)"
  by (induction ops r rule: ops_rate.induct) simp_all

lemma fold_rate_last:
  "fold straight_rate effs r = last (r # concat (map rate_writes effs))"
proof (induction effs arbitrary: r)
  case Nil
  show ?case by simp
next
  case (Cons e effs)
  have "straight_rate e r = last (r # rate_writes e)"
    by (cases "apply_body e") (simp_all add: straight_rate_def rate_writes_def ops_rate_last)
  then show ?case
    by (simp add: Cons)
qed

lemma last_writer_wins:
  assumes "applyEffects supported random st = Inr st'" "audioContextInitialized st"
    and "47 \<notin> set (activeEffectIds st)"
    and "speed_effect_active (activeEffects (activeEffectIds st))"
  shows "playbackRate st' = last (1 # concat (map rate_writes (activeEffects (activeEffectIds st))))"
  using rate_after_rebuild [OF assms(1-3)] assms(4) by (simp add: fold_rate_last)

lemma active_set_cong: "set ids = set ids' \<Longrightarrow> activeEffects ids = activeEffects ids'"
  by (simp add: activeEffects_def)

lemma toggle_twice_set: "set (toggleEffect i (toggleEffect i ids)) = set ids"
  by (auto simp: toggleEffect_def)

text \<open>
  C2. The claim has Chipmunk, Monster Voice and Time Stretch set the rate 1.5, 0.7 and
  0.7 when active alone. Their constructors write these rates, and the reset at the end
  of the same rebuild, which looks for four other names only, overwrites them: with
  one of the three active alone, the rate after the rebuild is 1.
\<close>

theorem rate_reset_overrides_chipmunk:
  "map_sum fst playbackRate
     (applyEffects all_supported random (loaded\<lparr>activeEffectIds := [27]\<rparr>)) = Inr 1
   \<and> map_sum fst playbackRate
     (applyEffects all_supported random (loaded\<lparr>activeEffectIds := [28]\<rparr>)) = Inr 1
   \<and> map_sum fst playbackRate
     (applyEffects all_supported random (loaded\<lparr>activeEffectIds := [40]\<rparr>)) = Inr 1"
  by (simp add: run_defs)

text \<open>
  C7. With Chipmunk and Monster Voice active together, Monster Voice is the last to write
  the rate (0.7), and the reset of the same rebuild overwrites it: the rate is 1.
\<close>

theorem rate_reset_overrides_last_writer:
  "map_sum fst playbackRate
     (applyEffects all_supported random (loaded\<lparr>activeEffectIds := [27, 28]\<rparr>)) = Inr 1"
  by (simp add: run_defs)

lemma designated_rates:
  "map_sum fst playbackRate
     (applyEffects all_supported random (loaded\<lparr>activeEffectIds := []\<rparr>)) = Inr 1"
  "map_sum fst playbackRate
     (applyEffects all_supported random (loaded\<lparr>activeEffectIds := [4]\<rparr>)) = Inr (13 / 10)"
  "map_sum fst playbackRate
     (applyEffects all_supported random (loaded\<lparr>activeEffectIds := [5]\<rparr>)) = Inr (8 / 10)"
  "map_sum fst playbackRate
     (applyEffects all_supported random (loaded\<lparr>activeEffectIds := [9]\<rparr>)) = Inr (12 / 10)"
  "map_sum fst playbackRate
     (applyEffects all_supported random (loaded\<lparr>activeEffectIds := [10]\<rparr>)) = Inr (85 / 100)"
  "map_sum fst playbackRate
     (applyEffects all_supported random (loaded\<lparr>activeEffectIds := [4, 5]\<rparr>)) = Inr (8 / 10)"
  "map_sum fst playbackRate
     (applyEffects all_supported random (loaded\<lparr>activeEffectIds := [4, 27]\<rparr>)) = Inr (15 / 10)"
  by (simp_all add: run_defs)

section \<open>The connections a rebuild adds\<close>

text \<open>
  The connections made by constructors without Random FX, computed from the effects, the
  number of the next free node and the node they start from alone. \<open>added st st'\<close> are the
  connections of \<open>st'\<close> that the rebuild of \<open>st\<close> has made, after those it has left
  standing. \<open>renumber d\<close> adds \<open>d\<close> to the number of every node created after the source,
  the master gain and the destination.
\<close>

fun ops_connections :: "node \<Rightarrow> node \<Rightarrow> op list \<Rightarrow> (node \<times> node) list" where
  "ops_connections source base [] = []"
| "ops_connections source base (Connect a b # ops) =
     (local_node source base a, local_node source base b) # ops_connections source base ops"
| "ops_connections source base (_ # ops) = ops_connections source base ops"

fun ops_created :: "op list \<Rightarrow> nat" where
  "ops_created [] = 0"
| "ops_created (Create k # ops) = Suc (ops_created ops)"
| "ops_created (_ # ops) = ops_created ops"

definition effect_connections :: "audio_effect \<Rightarrow> node \<Rightarrow> node \<Rightarrow> (node \<times> node) list" where
  "effect_connections effect base source =
     (case apply_body effect of
        Straight ops ret \<Rightarrow> ops_connections source base ops | RandomFX \<Rightarrow> [])"

definition created :: "audio_effect \<Rightarrow> nat" where
  "created effect = (case apply_body effect of Straight ops ret \<Rightarrow> ops_created ops | RandomFX \<Rightarrow> 0)"

definition returned :: "audio_effect \<Rightarrow> node \<Rightarrow> node \<Rightarrow> node" where
  "returned effect base source =
     (case apply_body effect of Straight ops ret \<Rightarrow> local_node source base ret | RandomFX \<Rightarrow> source)"

fun chain_connections :: "audio_effect list \<Rightarrow> node \<Rightarrow> node \<Rightarrow> (node \<times> node) list" where
  "chain_connections [] base currentNode = []"
| "chain_connections (effect # effects) base currentNode =
     effect_connections effect base currentNode
     @ chain_connections effects (base + created effect) (returned effect base currentNode)"

fun chain_end :: "audio_effect list \<Rightarrow> node \<Rightarrow> node \<Rightarrow> node" where
  "chain_end [] base currentNode = currentNode"
| "chain_end (effect # effects) base currentNode =
     chain_end effects (base + created effect) (returned effect base currentNode)"

definition renumber :: "nat \<Rightarrow> node \<Rightarrow> node" where
  "renumber d n = (if n < 3 then n else n + d)"

definition added :: "'a engine_scheme \<Rightarrow> 'a engine_scheme \<Rightarrow> (node \<times> node) list" where
  "added st st' = drop (length (connections (cleared st))) (connections st')"

lemma run_op_plan:
  assumes "run_op supported source base x st = Inr st'"
  shows "connections st' = connections st @ ops_connections source base [x]
    \<and> nextNode st' = nextNode st + ops_created [x]"
  using assms by (cases x) (auto simp: connect_def split: if_splits)

lemma ops_connections_Cons:
  "ops_connections source base (x # xs) = ops_connections source base [x] @ ops_connections source base xs"
  by (cases x) simp_all

lemma ops_created_Cons: "ops_created (x # xs) = ops_created [x] + ops_created xs"
  by (cases x) simp_all

lemma run_ops_plan:
  "run_ops supported source base xs st = Inr st' \<Longrightarrow>
     connections st' = connections st @ ops_connections source base xs
   \<and> nextNode st' = nextNode st + ops_created xs"
proof (induction xs arbitrary: st)
  case Nil
  then show ?case by simp
next
  case (Cons x xs)
  then obtain s1 where s1: "run_op supported source base x st = Inr s1"
    and rest: "run_ops supported source base xs s1 = Inr st'"
    by (auto split: sum.splits)
  from Cons.IH [OF rest] run_op_plan [OF s1] show ?case
    by (subst ops_connections_Cons, subst ops_created_Cons) simp
qed

lemma apply_active_plan:
  "\<forall>e \<in> set effs. apply_body e \<noteq> RandomFX \<Longrightarrow>
   apply_active supported random effs (st :: 'a engine_scheme) cur = Inr (st', n) \<Longrightarrow>
     connections st' = connections st @ chain_connections effs (nextNode st) cur
   \<and> n = chain_end effs (nextNode st) cur"
proof (induction effs arbitrary: st cur)
  case Nil
  then show ?case by simp
next
  case (Cons e effs)
  then obtain ops ret where body: "apply_body e = Straight ops ret"
    by (cases "apply_body e") auto
  from Cons.prems(2) body obtain s1 n1
    where s1: "apply_straight supported ops ret st cur = Inr (s1, n1)"
      and rest: "apply_active supported random effs
          (s1\<lparr>effectNodes := AList.update (effect_id e) n1 (effectNodes s1)\<rparr>) n1 = Inr (st', n)"
    by (auto split: sum.splits)
  from s1 have run: "run_ops supported cur (nextNode st) ops st = Inr s1"
    and n1: "n1 = local_node cur (nextNode st) ret"
    by (simp_all add: apply_straight_def split: sum.splits)
  from Cons.prems(1) have straight: "\<forall>e \<in> set effs. apply_body e \<noteq> RandomFX" by simp
  from Cons.IH [OF straight rest] run_ops_plan [OF run] n1 show ?case
    by (simp add: effect_connections_def created_def returned_def body)
qed

lemma local_node_renumber:
  "3 \<le> base \<Longrightarrow> local_node (renumber d source) (base + d) k = renumber d (local_node source base k)"
  by (auto simp: local_node_def renumber_def)

lemma ops_connections_renumber:
  "3 \<le> base \<Longrightarrow> ops_connections (renumber d source) (base + d) ops
     = map (map_prod (renumber d) (renumber d)) (ops_connections source base ops)"
  by (induction source base ops rule: ops_connections.induct) (simp_all add: local_node_renumber)

lemma chain_renumber:
  "3 \<le> base \<Longrightarrow>
     chain_connections effs (base + d) (renumber d cur)
       = map (map_prod (renumber d) (renumber d)) (chain_connections effs base cur)
   \<and> chain_end effs (base + d) (renumber d cur) = renumber d (chain_end effs base cur)"
proof (induction effs arbitrary: base cur)
  case Nil
  show ?case by simp
next
  case (Cons e effs)
  have r: "returned e (base + d) (renumber d cur) = renumber d (returned e base cur)"
    using Cons.prems by (cases "apply_body e") (simp_all add: returned_def local_node_renumber)
  have c: "effect_connections e (base + d) (renumber d cur)
      = map (map_prod (renumber d) (renumber d)) (effect_connections e base cur)"
    using Cons.prems by (cases "apply_body e") (simp_all add: effect_connections_def ops_connections_renumber)
  have "3 \<le> base + created e" using Cons.prems by simp
  from Cons.IH [OF this, of "returned e base cur"] r c show ?case
    by (simp add: add.assoc add.commute [of d] )
qed

lemma applyEffects_added:
  assumes "applyEffects supported random st = Inr st'" "audioContextInitialized st"
    and "47 \<notin> set (activeEffectIds st)"
  shows "added st st' =
     chain_connections (activeEffects (activeEffectIds st)) (nextNode st) sourceNode
     @ [(chain_end (activeEffects (activeEffectIds st)) (nextNode st) sourceNode, gainNode)]"
proof -
  let ?effs = "activeEffects (activeEffectIds st)"
  from assms obtain st4 n
    where a: "apply_active supported random ?effs (cleared st) sourceNode = Inr (st4, n)"
      and st': "st' = (if \<not> speed_effect_active ?effs
                      then (connect n gainNode st4)\<lparr>playbackRate := 1\<rparr>
                      else connect n gainNode st4)"
    by (auto simp: applyEffects_cleared split: sum.splits prod.splits)
  have straight: "\<forall>e \<in> set ?effs. apply_body e \<noteq> RandomFX"
    using active_no_random [OF assms(3)] by blast
  from apply_active_plan [OF straight a]
  have "connections st' = connections (cleared st)
      @ (chain_connections ?effs (nextNode st) sourceNode
         @ [(chain_end ?effs (nextNode st) sourceNode, gainNode)])"
    by (simp add: st' connect_def cleared_fields)
  then show ?thesis by (simp add: added_def)
qed

section \<open>Toggling an effect twice\<close>

lemma applyEffects_uninitialized:
  "\<not> audioContextInitialized st \<Longrightarrow> applyEffects supported random st = Inr st"
  by (simp add: applyEffects_def)

lemma renumber_0: "map (map_prod (renumber 0) (renumber 0)) es = es"
  by (induction es) (auto simp: renumber_def)

lemma added_ids: "added (st\<lparr>activeEffectIds := v\<rparr>) st' = added st st'"
  by (simp add: added_def cleared_def fold_disconnect disconnect_def)

text \<open>
  C5, as the code has it. Let a rebuild have returned, then toggle one id twice, both
  rebuilds returning. The active ids are the same set as before, and the rebuild has
  recorded the same stages in the same order. When Random FX is not among the active
  effects, the playback rate is the one from before as well, and the connections the
  last rebuild has made are those the first one had made, node for node, with the
  nodes that the rebuilds created numbered further on.
\<close>

theorem toggle_twice_restores:
  assumes "applyEffects supported r0 st = Inr s0"
    and "toggle supported r1 i s0 = Inr s1"
    and "toggle supported r2 i s1 = Inr s2"
    and "wired st"
  shows "set (activeEffectIds s2) = set (activeEffectIds s0)
    \<and> map fst (effectNodes s2) = map fst (effectNodes s0)
    \<and> (47 \<notin> set (activeEffectIds s0) \<longrightarrow>
          playbackRate s2 = playbackRate s0
        \<and> added s1 s2 =
            map (map_prod (renumber (nextNode s1 - nextNode st)) (renumber (nextNode s1 - nextNode st)))
              (added st s0))"
proof (cases "audioContextInitialized st")
  case False
  with assms(1) have s0: "s0 = st" by (simp add: applyEffects_uninitialized)
  with False assms(2) have s1: "s1 = s0\<lparr>activeEffectIds := toggleEffect i (activeEffectIds s0)\<rparr>"
    by (simp add: toggle_def applyEffects_uninitialized)
  with False s0 assms(3) have s2: "s2 = s1\<lparr>activeEffectIds := toggleEffect i (activeEffectIds s1)\<rparr>"
    by (simp add: toggle_def applyEffects_uninitialized)
  have "added s1 s2 = added st s0"
    by (simp add: s0 s1 s2 added_def cleared_def fold_disconnect disconnect_def)
  moreover have "nextNode s1 - nextNode st = 0" by (simp add: s0 s1)
  ultimately show ?thesis using s1 s2 by (simp add: toggle_twice_set renumber_0)
next
  case True
  let ?t1 = "s0\<lparr>activeEffectIds := toggleEffect i (activeEffectIds s0)\<rparr>"
  let ?t2 = "s1\<lparr>activeEffectIds := toggleEffect i (activeEffectIds s1)\<rparr>"
  let ?d = "nextNode s1 - nextNode st"
  note a0 = applyEffects_ok [OF assms(1) True]
  have run1: "applyEffects supported r1 ?t1 = Inr s1" using assms(2) by (simp add: toggle_def)
  have init1: "audioContextInitialized ?t1" using a0(2) by simp
  note a1 = applyEffects_ok [OF run1 init1]
  have run2: "applyEffects supported r2 ?t2 = Inr s2" using assms(3) by (simp add: toggle_def)
  have init2: "audioContextInitialized ?t2" using a1(2) by simp
  note a2 = applyEffects_ok [OF run2 init2]
  have ids1: "activeEffectIds s1 = toggleEffect i (activeEffectIds s0)" using a1(1) by simp
  have ids2: "activeEffectIds s2 = toggleEffect i (toggleEffect i (activeEffectIds s0))"
    using a2(1) ids1 by simp
  then have sets: "set (activeEffectIds s2) = set (activeEffectIds s0)"
    by (simp add: toggle_twice_set)
  have same: "activeEffects (activeEffectIds ?t2) = activeEffects (activeEffectIds st)"
    using sets ids2 ids1 a0(1) by (intro active_set_cong) simp
  have keys: "map fst (effectNodes s2) = map fst (effectNodes s0)"
    using a2(3) a0(3) same by simp
  have rest: "playbackRate s2 = playbackRate s0
      \<and> added s1 s2 = map (map_prod (renumber ?d) (renumber ?d)) (added st s0)"
    if "47 \<notin> set (activeEffectIds s0)"
  proof -
    from that a0(1) have n0: "47 \<notin> set (activeEffectIds st)" by simp
    from that sets ids2 ids1 have n2: "47 \<notin> set (activeEffectIds ?t2)" by simp
    from rate_after_rebuild [OF assms(1) True n0] rate_after_rebuild [OF run2 init2 n2] same
    have rate: "playbackRate s2 = playbackRate s0" by simp
    have base: "3 \<le> nextNode st" using assms(4) by (simp add: wired_def)
    have "nextNode st \<le> nextNode s1" using a0(9) a1(9) by simp
    then have next2: "nextNode ?t2 = nextNode st + ?d" by simp
    have zero: "renumber ?d sourceNode = sourceNode" by (simp add: renumber_def)
    let ?effs = "activeEffects (activeEffectIds st)"
    have "added s1 s2 = added ?t2 s2" by (simp add: added_ids)
    also have "\<dots> = chain_connections ?effs (nextNode st + ?d) (renumber ?d sourceNode)
        @ [(chain_end ?effs (nextNode st + ?d) (renumber ?d sourceNode), gainNode)]"
      using applyEffects_added [OF run2 init2 n2] same next2 zero by simp
    also have "\<dots> = map (map_prod (renumber ?d) (renumber ?d))
        (chain_connections ?effs (nextNode st) sourceNode
         @ [(chain_end ?effs (nextNode st) sourceNode, gainNode)])"
      using chain_renumber [OF base, of ?effs ?d sourceNode] by (simp add: renumber_def)
    also have "\<dots> = map (map_prod (renumber ?d) (renumber ?d)) (added st s0)"
      using applyEffects_added [OF assms(1) True n0] by simp
    finally show ?thesis using rate by blast
  qed
  from sets keys rest show ?thesis by blast
qed

theorem toggle_twice_restores_witness:
  "applyEffects all_supported (\<lambda>k. 0) (loaded\<lparr>activeEffectIds := [1]\<rparr>)
     = Inr (state_of (applyEffects all_supported (\<lambda>k. 0) (loaded\<lparr>activeEffectIds := [1]\<rparr>)))
   \<and> playbackRate (state_of (toggle all_supported (\<lambda>k. 0) 5
           (state_of (applyEffects all_supported (\<lambda>k. 0) (loaded\<lparr>activeEffectIds := [1]\<rparr>))))) = 8 / 10
   \<and> playbackRate (state_of (toggle all_supported (\<lambda>k. 0) 5
         (state_of (toggle all_supported (\<lambda>k. 0) 5
           (state_of (applyEffects all_supported (\<lambda>k. 0) (loaded\<lparr>activeEffectIds := [1]\<rparr>)))))))
     = playbackRate (state_of (applyEffects all_supported (\<lambda>k. 0) (loaded\<lparr>activeEffectIds := [1]\<rparr>)))
   \<and> added (loaded\<lparr>activeEffectIds := [1]\<rparr>)
         (state_of (applyEffects all_supported (\<lambda>k. 0) (loaded\<lparr>activeEffectIds := [1]\<rparr>)))
       = [(sourceNode, 3), (3, gainNode)]
   \<and> added (state_of (toggle all_supported (\<lambda>k. 0) 5
           (state_of (applyEffects all_supported (\<lambda>k. 0) (loaded\<lparr>activeEffectIds := [1]\<rparr>)))))
         (state_of (toggle all_supported (\<lambda>k. 0) 5
           (state_of (toggle all_supported (\<lambda>k. 0) 5
             (state_of (applyEffects all_supported (\<lambda>k. 0) (loaded\<lparr>activeEffectIds := [1]\<rparr>)))))))
       = [(sourceNode, 5), (5, gainNode)]"
proof -
  let ?st = "loaded\<lparr>activeEffectIds := [1]\<rparr>"
  let ?s0 = "state_of (applyEffects all_supported (\<lambda>k. 0) ?st)"
  let ?s1 = "state_of (toggle all_supported (\<lambda>k. 0) 5 ?s0)"
  let ?s2 = "state_of (toggle all_supported (\<lambda>k. 0) 5 ?s1)"
  have r0: "applyEffects all_supported (\<lambda>k. 0) ?st = Inr ?s0"
    by code_simp
  have r1: "toggle all_supported (\<lambda>k. 0) 5 ?s0 = Inr ?s1"
    by code_simp
  have r2: "toggle all_supported (\<lambda>k. 0) 5 ?s1 = Inr ?s2"
    by code_simp
  have w: "wired ?st"
    by (simp add: wired_def loaded_def initializeAudioContext_def)
  have no47: "47 \<notin> set (activeEffectIds ?s0)"
    by code_simp
  have mid: "playbackRate ?s1 = 8 / 10"
    by code_simp
  have first: "added ?st ?s0 = [(sourceNode, 3), (3, gainNode)]"
    by code_simp
  have d: "nextNode ?s1 - nextNode ?st = 2"
    by code_simp
  from toggle_twice_restores [OF r0 r1 r2 w] no47
  have "playbackRate ?s2 = playbackRate ?s0"
    and "added ?s1 ?s2 = map (map_prod (renumber (nextNode ?s1 - nextNode ?st))
        (renumber (nextNode ?s1 - nextNode ?st))) (added ?st ?s0)"
    by blast+
  then show ?thesis using r0 mid first d by (simp add: renumber_def)
qed

text \<open>
  The claim C5 as written also has no background task of the toggled stage left running
  and restores rate and topology in every state. Toggling 8D Audio on and off from the
  empty chain leaves the animation loop of its panner (node 3) running. With Nightcore and
  Random FX active, the rate after toggling Bass Boost on and off depends on what Random FX
  draws in the last rebuild: 1.3 before, 1.5 after when it draws Chipmunk.
\<close>

theorem toggle_twice_counterexample:
  "animationLoops (state_of (applyEffects all_supported (\<lambda>k. 0) loaded)) = []
   \<and> animationLoops (state_of (toggle all_supported (\<lambda>k. 0) 2
         (state_of (toggle all_supported (\<lambda>k. 0) 2
           (state_of (applyEffects all_supported (\<lambda>k. 0) loaded)))))) = [3]
   \<and> playbackRate (state_of (applyEffects all_supported (\<lambda>k. 99 / 100)
         (loaded\<lparr>activeEffectIds := [4, 47]\<rparr>))) = 13 / 10
   \<and> playbackRate (state_of (toggle all_supported (\<lambda>k. if k = 22 then 0 else 99 / 100) 1
         (state_of (toggle all_supported (\<lambda>k. 99 / 100) 1
           (state_of (applyEffects all_supported (\<lambda>k. 99 / 100)
             (loaded\<lparr>activeEffectIds := [4, 47]\<rparr>))))))) = 15 / 10"
  by code_simp

section \<open>A constructor that throws\<close>




section \<open>A second export request\<close>





end
